theory Spec2Isabelle
  imports Main "HOL-Library.Sublist"
begin

section \<open>Data model (assets/models.py)\<close>

text \<open>
  Primary keys are natural numbers. A date is its day number, so that
  \<open>date + timedelta(days=30)\<close> is \<open>d + 30\<close> and the order of dates is the order of
  integers. A user is identified by its username. A string is a list of characters, each
  a code point below 256.
\<close>

type_synonym pk = nat
type_synonym date = int
type_synonym user = string

text \<open>Employee: the columns read by the code in scope.\<close>

record employee =
  emp_pk :: pk
  employee_id :: string
  first_name :: string
  last_name :: string
  email :: string
  is_active :: bool

text \<open>\<open>Employee.__str__\<close>: \<open>f"{first_name} {last_name} ({employee_id})"\<close>.\<close>

definition employee_str :: "employee \<Rightarrow> string" where
  "employee_str e = first_name e @ '' '' @ last_name e @ '' ('' @ employee_id e @ '')''"

text \<open>\<open>Employee.full_name\<close>: \<open>f"{first_name} {last_name}"\<close>.\<close>

definition full_name :: "employee \<Rightarrow> string" where
  "full_name e = first_name e @ '' '' @ last_name e"

text \<open>
  Category, Location and Vendor are lookup tables. The code in scope reads and writes
  only their primary key and \<open>name\<close> (every other column keeps its default), so one
  record type serves the three tables.
\<close>

record named_row =
  row_pk :: pk
  row_name :: string

text \<open>
  Asset. Foreign keys hold the primary key of the row they point to; \<open>None\<close> is SQL NULL.
  \<open>purchase_cost\<close> is a decimal with two places, kept in hundredths.
\<close>

record asset =
  asset_pk :: pk
  asset_tag :: string
  name :: string
  description :: "string option"
  category :: "pk option"
  manufacturer :: "string option"
  model :: "string option"
  serial_number :: "string option"
  status :: string
  condition :: string
  location :: "pk option"
  assigned_to :: "pk option"
  assigned_date :: "date option"
  vendor :: "pk option"
  purchase_cost :: "int option"
  warranty_expiry :: "date option"
  asset_notes :: "string option"
  created_by :: "user option"

text \<open>
  AssetHistory. The table is kept in insertion order; \<open>asset\<close> is the foreign key
  (\<open>on_delete=CASCADE\<close>) to the asset.
\<close>

record asset_history =
  asset :: pk
  action :: string
  hist_description :: "string option"
  performed_by :: "user option"
  old_value :: "string option"
  new_value :: "string option"

text \<open>
  \<open>Asset.is_under_warranty\<close>, with \<open>timezone.now().date()\<close> passed as \<open>today\<close>. A
  \<open>datetime.date\<close> is always truthy, so \<open>if self.warranty_expiry\<close> tests for NULL only.
\<close>

definition is_under_warranty :: "date \<Rightarrow> asset \<Rightarrow> bool" where
  "is_under_warranty today a =
     (case warranty_expiry a of
        Some d \<Rightarrow> today \<le> d
      | None \<Rightarrow> False)"

section \<open>The store, requests and responses\<close>

datatype exn =
    MultipleObjectsReturned string
  | DoesNotExist string
  | ValueError string
  | KeyError string
  | MailError string

datatype level = Info | Success | Warning | Error

text \<open>
  The flash messages of the views. Each constructor is one f-string of views.py, with
  the interpolated values as arguments.
\<close>

datatype message_text =
    AssignedAndEmailSent string
  | AssignedButEmailFailed exn
  | AssetAssignedTo string string
  | UnassignedAndEmailSent
  | UnassignedButEmailFailed exn
  | AssetHasBeenUnassigned string
  | PleaseSelectAFile
  | PleaseUploadAnExcelFile
  | MissingRequiredColumn string
  | SuccessfullyImported nat
  | RowsHadErrors nat
  | RowError nat exn
  | ErrorProcessingFile exn

text \<open>An email handed to \<open>send_mail\<close>: subject and recipients (the body is not modelled).\<close>

record mail =
  subject :: string
  recipients :: "string list"

text \<open>
  The store: the tables, each in insertion order, and for every table to which the code
  in scope adds rows the largest key that the table has ever held (its entry in the
  database's \<open>sqlite_sequence\<close>; the keys are \<open>AUTOINCREMENT\<close> columns).
\<close>

record state =
  employees :: "employee list"
  categories :: "named_row list"
  category_seq :: nat
  locations :: "named_row list"
  location_seq :: nat
  vendors :: "named_row list"
  vendor_seq :: nat
  assets :: "asset list"
  asset_seq :: nat
  history :: "asset_history list"
  outbox :: "mail list"
  messages :: "(level \<times> message_text) list"

text \<open>
  The uploaded sheet as \<open>pandas.read_excel\<close> hands it over. A cell is \<open>NaN\<close> when it
  is empty; otherwise it is a value \<open>v\<close>, given by what the import computes from it:
  \<open>str(v)\<close>, and the outcome of storing \<open>float(v)\<close> in the decimal column
  \<open>purchase_cost\<close> (in hundredths; \<open>None\<close> when the conversion raises).
\<close>

datatype cell = NaN | Val string "int option"

text \<open>A row maps a column name to its cell.\<close>

type_synonym row = "(string \<times> cell) list"

record dataframe =
  columns :: "string list"
  rows :: "row list"

text \<open>An uploaded file: its name, and what \<open>pd.read_excel(file)\<close> returns or raises.\<close>

record upload =
  file_name :: string
  read_excel :: "exn + dataframe"

datatype http_method = GET | POST

text \<open>
  What lies outside the store: the current date and the mail transport
  (\<open>smtp_error = Some e\<close> when \<open>send_mail(..., fail_silently=False)\<close> raises \<open>e\<close>).
\<close>

record env =
  today :: date
  smtp_error :: "exn option"

record request =
  request_method :: http_method
  user :: "user option"
  POST_data :: "(string \<times> string) list"
  FILES_file :: "upload option"

datatype response =
    Render string
  | Redirect string "pk option"
  | Http404
  | ServerError exn

definition add_message :: "level \<Rightarrow> message_text \<Rightarrow> state \<Rightarrow> state" where
  "add_message l t s = s\<lparr>messages := messages s @ [(l, t)]\<rparr>"

text \<open>\<open>@login_required\<close>: an anonymous request is redirected to \<open>LOGIN_URL\<close>.\<close>

definition login_required ::
  "request \<Rightarrow> state \<Rightarrow> (user \<Rightarrow> response \<times> state) \<Rightarrow> response \<times> state" where
  "login_required request s view =
     (case user request of
        None \<Rightarrow> (Redirect ''/admin/login/'' None, s)
      | Some u \<Rightarrow> view u)"

subsection \<open>Queries\<close>

text \<open>\<open>get_object_or_404(Asset, pk=pk)\<close>; \<open>None\<close> stands for \<open>Http404\<close>.\<close>

definition get_asset :: "state \<Rightarrow> pk \<Rightarrow> asset option" where
  "get_asset s k = find (\<lambda>a. asset_pk a = k) (assets s)"

definition get_employee :: "state \<Rightarrow> int \<Rightarrow> employee option" where
  "get_employee s k = find (\<lambda>e. int (emp_pk e) = k) (employees s)"

text \<open>
  Reading the related object \<open>asset.assigned_to\<close>: \<open>None\<close> when the column is NULL,
  the employee row otherwise, and \<open>Employee.DoesNotExist\<close> when the row is missing.
\<close>

definition assigned_employee :: "state \<Rightarrow> asset \<Rightarrow> exn + employee option" where
  "assigned_employee s a =
     (case assigned_to a of
        None \<Rightarrow> Inr None
      | Some k \<Rightarrow>
          (case get_employee s (int k) of
             None \<Rightarrow> Inl (DoesNotExist ''Employee'')
           | Some e \<Rightarrow> Inr (Some e)))"

text \<open>
  \<open>asset.save()\<close> on a fetched instance: \<open>UPDATE ... WHERE id = pk\<close>, and an
  \<open>INSERT\<close> under that key when no row has it.
\<close>

definition save_asset :: "asset \<Rightarrow> state \<Rightarrow> state" where
  "save_asset a s =
     (if \<exists>x \<in> set (assets s). asset_pk x = asset_pk a
      then s\<lparr>assets := map (\<lambda>x. if asset_pk x = asset_pk a then a else x) (assets s)\<rparr>
      else s\<lparr>assets := assets s @ [a], asset_seq := max (asset_seq s) (asset_pk a)\<rparr>)"

text \<open>\<open>AssetHistory.objects.create(...)\<close>.\<close>

definition create_history :: "asset_history \<Rightarrow> state \<Rightarrow> state" where
  "create_history h s = s\<lparr>history := history s @ [h]\<rparr>"

subsection \<open>Form values\<close>

text \<open>
  \<open>request.POST.get(key)\<close>, on the fields of the form in the order they were sent: the
  last value of a key that is sent more than once.
\<close>

definition POST_get :: "request \<Rightarrow> string \<Rightarrow> string option" where
  "POST_get request key = map_of (rev (POST_data request)) key"

text \<open>Python's truth value of \<open>request.POST.get(key, False)\<close>: a non-empty string.\<close>

definition truthy :: "string option \<Rightarrow> bool" where
  "truthy v = (case v of None \<Rightarrow> False | Some t \<Rightarrow> t \<noteq> [])"

text \<open>\<open>str.isspace\<close> on a code point below 256.\<close>

definition isspace :: "char \<Rightarrow> bool" where
  "isspace c =
     (let n = (of_char c :: nat)
      in n = 32 \<or> (9 \<le> n \<and> n \<le> 13) \<or> (28 \<le> n \<and> n \<le> 31) \<or> n = 133 \<or> n = 160)"

text \<open>\<open>str.strip()\<close>.\<close>

definition strip :: "string \<Rightarrow> string" where
  "strip t = rev (dropWhile isspace (rev (dropWhile isspace t)))"

text \<open>
  The whitespace that \<open>int()\<close> allows around a number: of the code points below 128
  the space and 9 to 13 only, and above them the whitespace of \<open>str.isspace\<close>.
\<close>

definition int_space :: "char \<Rightarrow> bool" where
  "int_space c =
     (let n = (of_char c :: nat)
      in n = 32 \<or> (9 \<le> n \<and> n \<le> 13) \<or> n = 133 \<or> n = 160)"

definition digit_val :: "char \<Rightarrow> nat option" where
  "digit_val c =
     (let n = (of_char c :: nat)
      in if 48 \<le> n \<and> n \<le> 57 then Some (n - 48) else None)"

text \<open>
  The digits of a number after its first digit: a digit may be preceded by one
  underscore.
\<close>

fun more_digits :: "nat \<Rightarrow> string \<Rightarrow> nat option" where
  "more_digits acc [] = Some acc"
| "more_digits acc [c] =
     (case digit_val c of
        None \<Rightarrow> None
      | Some v \<Rightarrow> Some (10 * acc + v))"
| "more_digits acc (c # d # ds) =
     (if c = CHR ''_''
      then (case digit_val d of
              None \<Rightarrow> None
            | Some v \<Rightarrow> more_digits (10 * acc + v) ds)
      else (case digit_val c of
              None \<Rightarrow> None
            | Some v \<Rightarrow> more_digits (10 * acc + v) (d # ds)))"

definition digits_val :: "string \<Rightarrow> nat option" where
  "digits_val t =
     (case t of
        [] \<Rightarrow> None
      | c # cs \<Rightarrow>
          (case digit_val c of
             None \<Rightarrow> None
           | Some v \<Rightarrow> more_digits v cs))"

text \<open>
  The conversion of a primary-key lookup value, \<open>int(value)\<close>: surrounding whitespace,
  an optional sign, then decimal digits, where single underscores may separate digits;
  anything else raises \<open>ValueError\<close>.
\<close>

definition pk_value :: "string \<Rightarrow> exn + int" where
  "pk_value t =
     (case rev (dropWhile int_space (rev (dropWhile int_space t))) of
        [] \<Rightarrow> Inl (ValueError t)
      | c # cs \<Rightarrow>
          (if c = CHR ''-'' \<or> c = CHR ''+''
           then (case digits_val cs of
                   Some n \<Rightarrow> Inr (if c = CHR ''-'' then - int n else int n)
                 | None \<Rightarrow> Inl (ValueError t))
           else (case digits_val (c # cs) of
                   Some n \<Rightarrow> Inr (int n)
                 | None \<Rightarrow> Inl (ValueError t))))"

section \<open>Email notifications (views.py)\<close>

definition send_mail :: "env \<Rightarrow> mail \<Rightarrow> state \<Rightarrow> exn + state" where
  "send_mail e m s =
     (case smtp_error e of
        Some x \<Rightarrow> Inl x
      | None \<Rightarrow> Inr (s\<lparr>outbox := outbox s @ [m]\<rparr>))"

definition send_assignment_email :: "env \<Rightarrow> asset \<Rightarrow> employee \<Rightarrow> state \<Rightarrow> exn + state" where
  "send_assignment_email e a emp s =
     send_mail e \<lparr>subject = ''Asset Assigned: '' @ asset_tag a, recipients = [email emp]\<rparr> s"

definition send_unassignment_email :: "env \<Rightarrow> asset \<Rightarrow> employee \<Rightarrow> state \<Rightarrow> exn + state" where
  "send_unassignment_email e a emp s =
     send_mail e \<lparr>subject = ''Asset Returned: '' @ asset_tag a, recipients = [email emp]\<rparr> s"

section \<open>Assignment (views.py: assign_asset, unassign_asset)\<close>

text \<open>The block \<open># Send email notification\<close> of \<open>assign_asset\<close>.\<close>

definition notify_assign :: "env \<Rightarrow> request \<Rightarrow> asset \<Rightarrow> employee \<Rightarrow> state \<Rightarrow> state" where
  "notify_assign e request a emp s =
     (if truthy (POST_get request ''send_email'') \<and> email emp \<noteq> []
      then (case send_assignment_email e a emp s of
              Inr s' \<Rightarrow> add_message Success (AssignedAndEmailSent (email emp)) s'
            | Inl x \<Rightarrow> add_message Warning (AssignedButEmailFailed x) s)
      else add_message Success (AssetAssignedTo (asset_tag a) (full_name emp)) s)"

text \<open>The block \<open># Send email notification\<close> of \<open>unassign_asset\<close>.\<close>

definition notify_unassign :: "env \<Rightarrow> request \<Rightarrow> asset \<Rightarrow> employee \<Rightarrow> state \<Rightarrow> state" where
  "notify_unassign e request a old_assignee s =
     (if truthy (POST_get request ''send_email'') \<and> email old_assignee \<noteq> []
      then (case send_unassignment_email e a old_assignee s of
              Inr s' \<Rightarrow> add_message Success UnassignedAndEmailSent s'
            | Inl x \<Rightarrow> add_message Warning (UnassignedButEmailFailed x) s)
      else add_message Success (AssetHasBeenUnassigned (asset_tag a)) s)"

text \<open>The history row written by \<open>assign_asset\<close>.\<close>

definition assigned_row :: "user \<Rightarrow> asset \<Rightarrow> employee option \<Rightarrow> employee \<Rightarrow> asset_history" where
  "assigned_row u a old_assignee emp =
     \<lparr>asset = asset_pk a,
      action = ''assigned'',
      hist_description = Some (''Asset assigned to '' @ full_name emp),
      performed_by = Some u,
      old_value = Some (case old_assignee of
                          Some old \<Rightarrow> employee_str old
                        | None \<Rightarrow> ''None''),
      new_value = Some (full_name emp)\<rparr>"

text \<open>The history row written by \<open>unassign_asset\<close>.\<close>

definition unassigned_row :: "user \<Rightarrow> asset \<Rightarrow> employee \<Rightarrow> asset_history" where
  "unassigned_row u a old_assignee =
     \<lparr>asset = asset_pk a,
      action = ''unassigned'',
      hist_description = Some (''Asset unassigned from '' @ full_name old_assignee),
      performed_by = Some u,
      old_value = Some (full_name old_assignee),
      new_value = Some ''None''\<rparr>"

definition assign_asset :: "env \<Rightarrow> request \<Rightarrow> pk \<Rightarrow> state \<Rightarrow> response \<times> state" where
  "assign_asset e request k s =
     login_required request s (\<lambda>u.
       case get_asset s k of
         None \<Rightarrow> (Http404, s)
       | Some a \<Rightarrow>
           (case (if request_method request = POST then POST_get request ''employee_id'' else None) of
              None \<Rightarrow> (Render ''assets/assign_asset.html'', s)
            | Some eid \<Rightarrow>
                (if eid = [] then (Render ''assets/assign_asset.html'', s)
                 else
                   (case pk_value eid of
                      Inl x \<Rightarrow> (ServerError x, s)
                    | Inr i \<Rightarrow>
                        (case get_employee s i of
                           None \<Rightarrow> (Http404, s)
                         | Some emp \<Rightarrow>
                             (case assigned_employee s a of
                                Inl x \<Rightarrow> (ServerError x, s)
                              | Inr old_assignee \<Rightarrow>
                                  (let a1 = a\<lparr>assigned_to := Some (emp_pk emp),
                                              assigned_date := Some (today e),
                                              status := ''assigned''\<rparr>;
                                       s1 = save_asset a1 s;
                                       s2 = create_history (assigned_row u a1 old_assignee emp) s1;
                                       s3 = notify_assign e request a1 emp s2
                                   in (Redirect ''assets:asset_detail'' (Some k), s3))))))))"

definition unassign_asset :: "env \<Rightarrow> request \<Rightarrow> pk \<Rightarrow> state \<Rightarrow> response \<times> state" where
  "unassign_asset e request k s =
     login_required request s (\<lambda>u.
       case get_asset s k of
         None \<Rightarrow> (Http404, s)
       | Some a \<Rightarrow>
           (if request_method request = POST
            then
              (case assigned_employee s a of
                 Inl x \<Rightarrow> (ServerError x, s)
               | Inr None \<Rightarrow> (Redirect ''assets:asset_detail'' (Some k), s)
               | Inr (Some old_assignee) \<Rightarrow>
                   (let a1 = a\<lparr>assigned_to := None,
                               assigned_date := None,
                               status := ''available''\<rparr>;
                        s1 = save_asset a1 s;
                        s2 = create_history (unassigned_row u a1 old_assignee) s1;
                        s3 = notify_unassign e request a1 old_assignee s2
                    in (Redirect ''assets:asset_detail'' (Some k), s3)))
            else (Render ''assets/unassign_asset.html'', s)))"

section \<open>Bulk import (views.py: bulk_import)\<close>

text \<open>\<open>row.get(col)\<close>: \<open>None\<close> when the sheet has no such column.\<close>

definition row_get :: "row \<Rightarrow> string \<Rightarrow> cell option" where
  "row_get r col = map_of r col"

text \<open>\<open>row[col]\<close>.\<close>

definition row_item :: "row \<Rightarrow> string \<Rightarrow> exn + cell" where
  "row_item r col = (case map_of r col of None \<Rightarrow> Inl (KeyError col) | Some v \<Rightarrow> Inr v)"

text \<open>\<open>pd.notna\<close>: false on \<open>None\<close> and on \<open>NaN\<close>.\<close>

definition notna :: "cell option \<Rightarrow> bool" where
  "notna v = (case v of Some (Val t c) \<Rightarrow> True | _ \<Rightarrow> False)"

definition str_cell :: "cell \<Rightarrow> string" where
  "str_cell v = (case v of NaN \<Rightarrow> ''nan'' | Val t c \<Rightarrow> t)"

text \<open>\<open>str.lower()\<close>: the letters A to Z, and the capital letters from 192 to 222.\<close>

definition lower :: "string \<Rightarrow> string" where
  "lower t =
     map (\<lambda>c. let n = (of_char c :: nat)
               in if (65 \<le> n \<and> n \<le> 90) \<or> (192 \<le> n \<and> n \<le> 222 \<and> n \<noteq> 215)
                  then char_of (n + 32) else c) t"

text \<open>\<open>str(row.get(col, '')).strip() if pd.notna(row.get(col)) else None\<close>.\<close>

definition cell_text :: "row \<Rightarrow> string \<Rightarrow> string option" where
  "cell_text r col =
     (if notna (row_get r col) then map_option (\<lambda>v. strip (str_cell v)) (row_get r col)
      else None)"

text \<open>
  The key that the database gives a new row: one more than the largest key that the
  table has ever held, so that the key of a deleted row is not used again.
\<close>

definition next_pk :: "nat \<Rightarrow> pk list \<Rightarrow> pk" where
  "next_pk seq ks = Suc (max seq (fold max ks 0))"

text \<open>
  \<open>Model.objects.get_or_create(name=n)\<close> on a lookup table: the row with that name,
  a new row when there is none, \<open>MultipleObjectsReturned\<close> when there are several.
  The result is the object, the flag \<open>created\<close>, the table and its largest key.
\<close>

definition get_or_create ::
  "string \<Rightarrow> named_row list \<Rightarrow> nat \<Rightarrow> string
     \<Rightarrow> exn + (named_row \<times> bool \<times> named_row list \<times> nat)" where
  "get_or_create model_name tbl seq n =
     (case filter (\<lambda>x. row_name x = n) tbl of
        [] \<Rightarrow>
          (let x = \<lparr>row_pk = next_pk seq (map row_pk tbl), row_name = n\<rparr>
           in Inr (x, True, tbl @ [x], row_pk x))
      | [x] \<Rightarrow> Inr (x, False, tbl, seq)
      | x # y # zs \<Rightarrow> Inl (MultipleObjectsReturned model_name))"

text \<open>
  The blocks \<open># Get or create category\<close>, \<open>location\<close> and \<open>vendor\<close>: the
  foreign key for the row, and the table and its largest key after the lookup.
\<close>

definition lookup_fk ::
  "string \<Rightarrow> string list \<Rightarrow> row \<Rightarrow> string \<Rightarrow> named_row list \<Rightarrow> nat
     \<Rightarrow> exn + (pk option \<times> named_row list \<times> nat)" where
  "lookup_fk model_name cols r col tbl seq =
     (if col \<in> set cols \<and> notna (row_get r col)
      then (case row_item r col of
              Inl x \<Rightarrow> Inl x
            | Inr v \<Rightarrow>
                (case get_or_create model_name tbl seq (strip (str_cell v)) of
                   Inl x \<Rightarrow> Inl x
                 | Inr (obj, created, tbl', seq') \<Rightarrow> Inr (Some (row_pk obj), tbl', seq')))
      else Inr (None, tbl, seq))"

text \<open>
  \<open>float(row['purchase_cost']) if 'purchase_cost' in df.columns and
  pd.notna(row.get('purchase_cost')) else None\<close>.
\<close>

definition row_cost :: "string list \<Rightarrow> row \<Rightarrow> exn + int option" where
  "row_cost cols r =
     (if ''purchase_cost'' \<in> set cols \<and> notna (row_get r ''purchase_cost'')
      then (case row_item r ''purchase_cost'' of
              Inl x \<Rightarrow> Inl x
            | Inr v \<Rightarrow>
                (case v of
                   Val t (Some c) \<Rightarrow> Inr (Some c)
                 | _ \<Rightarrow> Inl (ValueError (str_cell v))))
      else Inr None)"

text \<open>A new Asset with the field defaults of models.py.\<close>

definition new_asset :: "pk \<Rightarrow> string \<Rightarrow> asset" where
  "new_asset k tag =
     \<lparr>asset_pk = k, asset_tag = tag, name = [], description = None, category = None,
      manufacturer = None, model = None, serial_number = None, status = ''available'',
      condition = ''new'', location = None, assigned_to = None, assigned_date = None,
      vendor = None, purchase_cost = None, warranty_expiry = None, asset_notes = None,
      created_by = None\<rparr>"

text \<open>The dictionary \<open>defaults\<close> of the import, as the assignment of its values to an asset.\<close>

definition import_defaults ::
  "user \<Rightarrow> row \<Rightarrow> string \<Rightarrow> pk option \<Rightarrow> pk option \<Rightarrow> pk option \<Rightarrow> int option
     \<Rightarrow> asset \<Rightarrow> asset" where
  "import_defaults u r nm category_fk location_fk vendor_fk cost a =
     a\<lparr>name := nm,
       description := Some (case cell_text r ''description'' of Some t \<Rightarrow> t | None \<Rightarrow> []),
       category := category_fk,
       manufacturer := Some (case cell_text r ''manufacturer'' of Some t \<Rightarrow> t | None \<Rightarrow> []),
       model := Some (case cell_text r ''model'' of Some t \<Rightarrow> t | None \<Rightarrow> []),
       serial_number := cell_text r ''serial_number'',
       status := (case cell_text r ''status'' of Some t \<Rightarrow> lower t | None \<Rightarrow> ''available''),
       condition := (case cell_text r ''condition'' of Some t \<Rightarrow> lower t | None \<Rightarrow> ''new''),
       location := location_fk,
       vendor := vendor_fk,
       purchase_cost := cost,
       asset_notes := Some (case cell_text r ''notes'' of Some t \<Rightarrow> t | None \<Rightarrow> []),
       created_by := Some u\<rparr>"

text \<open>
  \<open>Asset.objects.update_or_create(asset_tag=tag, defaults=...)\<close>: the asset with that
  tag is updated with the defaults and saved, a new one is created from them when there
  is none. The result is the object, the flag \<open>created\<close> and the store.
\<close>

definition update_or_create ::
  "string \<Rightarrow> (asset \<Rightarrow> asset) \<Rightarrow> state \<Rightarrow> exn + (asset \<times> bool \<times> state)" where
  "update_or_create tag defaults s =
     (case filter (\<lambda>a. asset_tag a = tag) (assets s) of
        [] \<Rightarrow>
          (let a = defaults (new_asset (next_pk (asset_seq s) (map asset_pk (assets s))) tag)
           in Inr (a, True, s\<lparr>assets := assets s @ [a], asset_seq := asset_pk a\<rparr>))
      | [a] \<Rightarrow> (let a' = defaults a in Inr (a', False, save_asset a' s))
      | a # b # cs \<Rightarrow> Inl (MultipleObjectsReturned ''Asset''))"

text \<open>The history row written for an imported asset.\<close>

definition imported_row :: "user \<Rightarrow> asset \<Rightarrow> asset_history" where
  "imported_row u a =
     \<lparr>asset = asset_pk a,
      action = ''created'',
      hist_description = Some ''Asset imported via bulk upload'',
      performed_by = Some u,
      old_value = None,
      new_value = None\<rparr>"

text \<open>
  The body of the \<open>try\<close> for one row: the exception it raises, if any, and the store
  it leaves. Every statement that writes commits on its own, so what was written before
  an exception stays.
\<close>

definition import_row :: "user \<Rightarrow> string list \<Rightarrow> row \<Rightarrow> state \<Rightarrow> exn option \<times> state" where
  "import_row u cols r s =
     (case lookup_fk ''Category'' cols r ''category'' (categories s) (category_seq s) of
        Inl x \<Rightarrow> (Some x, s)
      | Inr (category_fk, tbl1, seq1) \<Rightarrow>
     (let s1 = s\<lparr>categories := tbl1, category_seq := seq1\<rparr> in
      case lookup_fk ''Location'' cols r ''location'' (locations s1) (location_seq s1) of
        Inl x \<Rightarrow> (Some x, s1)
      | Inr (location_fk, tbl2, seq2) \<Rightarrow>
     (let s2 = s1\<lparr>locations := tbl2, location_seq := seq2\<rparr> in
      case lookup_fk ''Vendor'' cols r ''vendor'' (vendors s2) (vendor_seq s2) of
        Inl x \<Rightarrow> (Some x, s2)
      | Inr (vendor_fk, tbl3, seq3) \<Rightarrow>
     (let s3 = s2\<lparr>vendors := tbl3, vendor_seq := seq3\<rparr> in
      case row_item r ''asset_tag'' of
        Inl x \<Rightarrow> (Some x, s3)
      | Inr tag \<Rightarrow>
     (case row_item r ''name'' of
        Inl x \<Rightarrow> (Some x, s3)
      | Inr nm \<Rightarrow>
     (case row_cost cols r of
        Inl x \<Rightarrow> (Some x, s3)
      | Inr cost \<Rightarrow>
     (case update_or_create (strip (str_cell tag))
             (import_defaults u r (strip (str_cell nm)) category_fk location_fk vendor_fk cost)
             s3 of
        Inl x \<Rightarrow> (Some x, s3)
      | Inr (a, created, s4) \<Rightarrow>
          (None, if created then create_history (imported_row u a) s4 else s4))))))))"

record import_acc =
  store :: state
  success_count :: nat
  error_count :: nat
  errors :: "(nat \<times> exn) list"

text \<open>
  One turn of the loop \<open>for index, row in df.iterrows()\<close>. The message
  \<open>f"Row {index + 2}: {str(e)}"\<close> is kept as the pair of the row number and the
  exception.
\<close>

definition import_step :: "user \<Rightarrow> string list \<Rightarrow> nat \<Rightarrow> row \<Rightarrow> import_acc \<Rightarrow> import_acc" where
  "import_step u cols index r acc =
     (case import_row u cols r (store acc) of
        (None, s') \<Rightarrow> acc\<lparr>store := s', success_count := success_count acc + 1\<rparr>
      | (Some x, s') \<Rightarrow>
          acc\<lparr>store := s',
              error_count := error_count acc + 1,
              errors := errors acc @ [(index + 2, x)]\<rparr>)"

fun import_rows :: "user \<Rightarrow> string list \<Rightarrow> nat \<Rightarrow> row list \<Rightarrow> import_acc \<Rightarrow> import_acc" where
  "import_rows u cols index [] acc = acc"
| "import_rows u cols index (r # rs) acc =
     import_rows u cols (Suc index) rs (import_step u cols index r acc)"

text \<open>The messages after the loop.\<close>

definition import_messages :: "import_acc \<Rightarrow> state" where
  "import_messages acc =
     (let s1 = (if 0 < success_count acc
                then add_message Success (SuccessfullyImported (success_count acc)) (store acc)
                else store acc)
      in if 0 < error_count acc
         then fold (\<lambda>(i, x). add_message Error (RowError i x)) (take 5 (errors acc))
                (add_message Warning (RowsHadErrors (error_count acc)) s1)
         else s1)"

text \<open>\<open>file.name.endswith(('.xlsx', '.xls'))\<close>.\<close>

definition endswith :: "string \<Rightarrow> string list \<Rightarrow> bool" where
  "endswith t sfxs =
     (\<exists>sfx \<in> set sfxs. length sfx \<le> length t \<and> drop (length t - length sfx) t = sfx)"

definition bulk_import :: "request \<Rightarrow> state \<Rightarrow> response \<times> state" where
  "bulk_import request s =
     login_required request s (\<lambda>u.
       if request_method request = POST
       then
         (case FILES_file request of
            None \<Rightarrow> (Redirect ''assets:bulk_import'' None, add_message Error PleaseSelectAFile s)
          | Some file \<Rightarrow>
              (if \<not> endswith (file_name file) [''.xlsx'', ''.xls'']
               then (Redirect ''assets:bulk_import'' None,
                     add_message Error PleaseUploadAnExcelFile s)
               else
                 (case read_excel file of
                    Inl x \<Rightarrow>
                      (Redirect ''assets:bulk_import'' None,
                       add_message Error (ErrorProcessingFile x) s)
                  | Inr df \<Rightarrow>
                      (case filter (\<lambda>col. col \<notin> set (columns df)) [''asset_tag'', ''name''] of
                         col # others \<Rightarrow>
                           (Redirect ''assets:bulk_import'' None,
                            add_message Error (MissingRequiredColumn col) s)
                       | [] \<Rightarrow>
                           (Redirect ''assets:asset_list'' None,
                            import_messages
                              (import_rows u (columns df) 0 (rows df)
                                 \<lparr>store = s, success_count = 0, error_count = 0,
                                  errors = []\<rparr>))))))
       else (Render ''assets/bulk_import.html'', s))"

text \<open>
  The name that the block \<open># Get or create category\<close> looks up for a row,
  \<open>str(row['category']).strip()\<close>; \<open>None\<close> when the block is skipped.
\<close>

definition row_category :: "string list \<Rightarrow> row \<Rightarrow> string option" where
  "row_category cols r =
     (if ''category'' \<in> set cols \<and> notna (row_get r ''category'')
      then cell_text r ''category'' else None)"

text \<open>The loop after its first \<open>j\<close> rows, started on the store \<open>s\<close>.\<close>

definition import_upto :: "user \<Rightarrow> string list \<Rightarrow> row list \<Rightarrow> state \<Rightarrow> nat \<Rightarrow> import_acc" where
  "import_upto u cols rs s j =
     import_rows u cols 0 (take j rs)
       \<lparr>store = s, success_count = 0, error_count = 0, errors = []\<rparr>"

section \<open>Admin (assets/admin.py)\<close>

text \<open>
  The permission methods of an admin class. \<open>ModelAdmin\<close> is Django's default for a
  user who holds the permissions of the model, as a superuser does: adding, changing
  and deleting are allowed unless the class overrides the method.
\<close>

record model_admin =
  has_add_permission :: bool
  has_change_permission :: bool
  has_delete_permission :: bool

definition ModelAdmin :: model_admin where
  "ModelAdmin =
     \<lparr>has_add_permission = True, has_change_permission = True, has_delete_permission = True\<rparr>"

definition AssetAdmin :: model_admin where
  "AssetAdmin = ModelAdmin"

text \<open>\<open>AssetHistoryAdmin\<close> overrides \<open>has_add_permission\<close> and \<open>has_change_permission\<close>.\<close>

definition AssetHistoryAdmin :: model_admin where
  "AssetHistoryAdmin = ModelAdmin\<lparr>has_add_permission := False, has_change_permission := False\<rparr>"

text \<open>
  \<open>AssetHistoryInline\<close>: \<open>has_add_permission\<close> returns False, \<open>can_delete\<close> is
  False, and a row can be changed only through a field that is not read-only (the
  inline shows the editable fields of the model other than the link to its asset).
\<close>

definition inline_fields :: "string list" where
  "inline_fields = [''action'', ''description'', ''performed_by'', ''old_value'', ''new_value'']"

definition inline_readonly_fields :: "string list" where
  "inline_readonly_fields =
     [''action'', ''description'', ''performed_by'', ''old_value'', ''new_value'', ''created_at'']"

definition AssetHistoryInline :: model_admin where
  "AssetHistoryInline =
     \<lparr>has_add_permission = False,
      has_change_permission = (\<exists>f \<in> set inline_fields. f \<notin> set inline_readonly_fields),
      has_delete_permission = False\<rparr>"

text \<open>The history row written by \<open>AssetAdmin.save_model\<close>.\<close>

definition created_row :: "user \<Rightarrow> asset \<Rightarrow> asset_history" where
  "created_row u obj =
     \<lparr>asset = asset_pk obj,
      action = ''created'',
      hist_description = Some (''Asset '' @ asset_tag obj @ '' was created''),
      performed_by = Some u,
      old_value = None,
      new_value = None\<rparr>"

text \<open>
  \<open>AssetAdmin.save_model(request, obj, form, change)\<close>, where \<open>super().save_model\<close>
  is \<open>obj.save()\<close>: an \<open>INSERT\<close> under a new key for the object of the add form
  (\<open>change\<close> is False), the update of its row for the object of the change form.
\<close>

definition save_model :: "user \<Rightarrow> asset \<Rightarrow> bool \<Rightarrow> state \<Rightarrow> state" where
  "save_model u obj change s =
     (if \<not> change
      then (let obj1 = obj\<lparr>created_by := Some u\<rparr>;
                obj2 = obj1\<lparr>asset_pk := next_pk (asset_seq s) (map asset_pk (assets s))\<rparr>;
                s1 = s\<lparr>assets := assets s @ [obj2], asset_seq := asset_pk obj2\<rparr>
            in create_history (created_row u obj2) s1)
      else save_asset obj s)"

text \<open>
  Deleting an asset: the rows of AssetHistory that point to it go with it
  (\<open>on_delete=models.CASCADE\<close>).
\<close>

definition delete_asset :: "pk \<Rightarrow> state \<Rightarrow> state" where
  "delete_asset k s =
     s\<lparr>assets := filter (\<lambda>a. asset_pk a \<noteq> k) (assets s),
       history := filter (\<lambda>h. asset h \<noteq> k) (history s)\<rparr>"

text \<open>
  What a user may ask of an admin class about the history table: add a row, change the
  row at a position, delete the row at a position. A request without the permission
  is refused and changes nothing.
\<close>

datatype history_edit =
    AddRow asset_history
  | ChangeRow nat asset_history
  | DeleteRow nat

definition admin_history_edit :: "model_admin \<Rightarrow> history_edit \<Rightarrow> state \<Rightarrow> state" where
  "admin_history_edit ad ed s =
     (case ed of
        AddRow h \<Rightarrow> (if has_add_permission ad then create_history h s else s)
      | ChangeRow i h \<Rightarrow>
          (if has_change_permission ad then s\<lparr>history := (history s)[i := h]\<rparr> else s)
      | DeleteRow i \<Rightarrow>
          (if has_delete_permission ad
           then s\<lparr>history := take i (history s) @ drop (Suc i) (history s)\<rparr>
           else s))"

section \<open>The operations of the system\<close>

datatype operation =
    Assign env request pk
  | Unassign env request pk
  | BulkImport request
  | AdminSaveAsset user asset bool
  | AdminDeleteAsset pk
  | AdminHistory history_edit
  | InlineHistory history_edit

definition perform :: "operation \<Rightarrow> state \<Rightarrow> state" where
  "perform op s =
     (case op of
        Assign e r k \<Rightarrow> snd (assign_asset e r k s)
      | Unassign e r k \<Rightarrow> snd (unassign_asset e r k s)
      | BulkImport r \<Rightarrow> snd (bulk_import r s)
      | AdminSaveAsset u obj change \<Rightarrow>
          (if (if change then has_change_permission AssetAdmin
               else has_add_permission AssetAdmin)
           then save_model u obj change s else s)
      | AdminDeleteAsset k \<Rightarrow>
          (if has_delete_permission AssetAdmin then delete_asset k s else s)
      | AdminHistory ed \<Rightarrow> admin_history_edit AssetHistoryAdmin ed s
      | InlineHistory ed \<Rightarrow> admin_history_edit AssetHistoryInline ed s)"

text \<open>The operations that delete where the admin class permits deleting.\<close>

definition deletes :: "operation \<Rightarrow> bool" where
  "deletes op =
     (case op of
        AdminDeleteAsset k \<Rightarrow> True
      | AdminHistory (DeleteRow i) \<Rightarrow> True
      | _ \<Rightarrow> False)"

text \<open>The assets of the store in table order, each by its key and its tag.\<close>

definition asset_keys :: "state \<Rightarrow> (pk \<times> string) list" where
  "asset_keys s = map (\<lambda>a. (asset_pk a, asset_tag a)) (assets s)"

text \<open>The tag under which a row is imported, \<open>str(row['asset_tag']).strip()\<close>.\<close>

definition row_tag :: "row \<Rightarrow> string option" where
  "row_tag r = map_option (\<lambda>v. strip (str_cell v)) (row_get r ''asset_tag'')"

section \<open>Reports (views.py: reports)\<close>

text \<open>
  The lookups \<open>warranty_expiry__gte\<close>, \<open>warranty_expiry__lte\<close> and
  \<open>warranty_expiry__lt\<close>. A comparison with NULL matches no row.
\<close>

definition expiry_gte :: "date \<Rightarrow> asset \<Rightarrow> bool" where
  "expiry_gte t a = (case warranty_expiry a of Some d \<Rightarrow> t \<le> d | None \<Rightarrow> False)"

definition expiry_lte :: "date \<Rightarrow> asset \<Rightarrow> bool" where
  "expiry_lte t a = (case warranty_expiry a of Some d \<Rightarrow> d \<le> t | None \<Rightarrow> False)"

definition expiry_lt :: "date \<Rightarrow> asset \<Rightarrow> bool" where
  "expiry_lt t a = (case warranty_expiry a of Some d \<Rightarrow> d < t | None \<Rightarrow> False)"

text \<open>
  The entries of the template context of \<open>reports\<close> that count assets (the sums and
  the counts per category, location and department are not modelled).
\<close>

record report_context =
  total_assets :: nat
  warranty_valid :: nat
  warranty_expiring :: nat
  warranty_expired :: nat

definition reports :: "env \<Rightarrow> state \<Rightarrow> report_context" where
  "reports e s =
     (let thirty_days = today e + 30
      in \<lparr>total_assets = length (assets s),
          warranty_valid = length (filter (expiry_gte (today e)) (assets s)),
          warranty_expiring =
            length (filter (\<lambda>a. expiry_gte (today e) a \<and> expiry_lte thirty_days a) (assets s)),
          warranty_expired = length (filter (expiry_lt (today e)) (assets s))\<rparr>)"

section \<open>Example data\<close>

definition ex_jane :: employee where
  "ex_jane = \<lparr>emp_pk = 1, employee_id = ''EMP001'', first_name = ''Jane'',
              last_name = ''Doe'', email = ''jane@example.com'', is_active = True\<rparr>"

definition ex_john :: employee where
  "ex_john = \<lparr>emp_pk = 2, employee_id = ''EMP002'', first_name = ''John'',
              last_name = ''Smith'', email = ''john@example.com'', is_active = True\<rparr>"

definition ex_asset :: asset where
  "ex_asset =
     \<lparr>asset_pk = 1, asset_tag = ''AST001'', name = ''Dell Laptop'', description = None,
      category = None, manufacturer = None, model = None, serial_number = None,
      status = ''available'', condition = ''new'', location = None, assigned_to = None,
      assigned_date = None, vendor = None, purchase_cost = None, warranty_expiry = None,
      asset_notes = None, created_by = None\<rparr>"

definition ex_state :: state where
  "ex_state =
     \<lparr>employees = [ex_jane, ex_john], categories = [], category_seq = 0,
      locations = [], location_seq = 0, vendors = [], vendor_seq = 0,
      assets = [ex_asset], asset_seq = 1, history = [], outbox = [], messages = []\<rparr>"

definition ex_env :: env where
  "ex_env = \<lparr>today = 739000, smtp_error = None\<rparr>"

definition ex_post :: "(string \<times> string) list \<Rightarrow> request" where
  "ex_post d = \<lparr>request_method = POST, user = Some ''admin'', POST_data = d,
                FILES_file = None\<rparr>"

text \<open>The example store after \<open>AST001\<close> has been assigned to Jane Doe.\<close>

definition ex_assigned_asset :: asset where
  "ex_assigned_asset =
     ex_asset\<lparr>assigned_to := Some 1, assigned_date := Some 738990, status := ''assigned''\<rparr>"

definition ex_assigned_state :: state where
  "ex_assigned_state = ex_state\<lparr>assets := [ex_assigned_asset]\<rparr>"

text \<open>A store with one asset whose warranty ends ten days after the example date.\<close>

definition ex_warranty_state :: state where
  "ex_warranty_state = ex_state\<lparr>assets := [ex_asset\<lparr>warranty_expiry := Some 739010\<rparr>]\<rparr>"

text \<open>
  A sheet of three rows. The second has a cost that is not a number; the category of the
  third ends in a no-break space.
\<close>

definition ex_cols :: "string list" where
  "ex_cols = [''asset_tag'', ''name'', ''category'', ''purchase_cost'']"

definition ex_rows :: "row list" where
  "ex_rows =
     [[(''asset_tag'', Val ''AST100'' None), (''name'', Val ''Latitude'' None),
       (''category'', Val ''Laptop '' None), (''purchase_cost'', NaN)],
      [(''asset_tag'', Val ''AST101'' None), (''name'', Val ''Thinkpad'' None),
       (''category'', Val '' Laptop'' None), (''purchase_cost'', Val ''twelve'' None)],
      [(''asset_tag'', Val ''AST102'' None), (''name'', Val ''Elitebook'' None),
       (''category'', Val (''Laptop'' @ [CHR 0xA0]) None),
       (''purchase_cost'', Val ''75000'' (Some 7500000))]]"

text \<open>A sheet of six rows, each with a cost that is not a number.\<close>

definition ex_bad_rows :: "row list" where
  "ex_bad_rows =
     map (\<lambda>tag. [(''asset_tag'', Val tag None), (''name'', Val ''Dock'' None),
                  (''category'', NaN), (''purchase_cost'', Val ''twelve'' None)])
       [''AST201'', ''AST202'', ''AST203'', ''AST204'', ''AST205'', ''AST206'']"

text \<open>The upload of that sheet.\<close>

definition ex_file :: upload where
  "ex_file = \<lparr>file_name = ''assets.xlsx'',
               read_excel = Inr \<lparr>columns = ex_cols, rows = ex_rows\<rparr>\<rparr>"

definition ex_upload :: request where
  "ex_upload = \<lparr>request_method = POST, user = Some ''admin'', POST_data = [],
                 FILES_file = Some ex_file\<rparr>"

text \<open>The store after the assignment, with the row that the assignment wrote.\<close>

definition ex_logged_state :: state where
  "ex_logged_state =
     ex_assigned_state\<lparr>history := [assigned_row ''admin'' ex_assigned_asset None ex_jane]\<rparr>"

text \<open>A sequence of operations, none of which deletes.\<close>

definition ex_ops :: "operation list" where
  "ex_ops =
     [Unassign ex_env (ex_post []) 1,
      Assign ex_env (ex_post [(''employee_id'', ''2'')]) 1,
      BulkImport ex_upload,
      AdminSaveAsset ''admin'' (ex_asset\<lparr>status := ''retired''\<rparr>) True,
      AdminHistory (ChangeRow 0 (created_row ''admin'' ex_asset)),
      InlineHistory (DeleteRow 0)]"



section \<open>Properties of the store operations\<close>

lemma find_pk_eq: "find (\<lambda>a. asset_pk a = k) xs = Some a \<Longrightarrow> asset_pk a = k"
  by (induction xs) (auto split: if_splits)

lemma get_asset_pk: "get_asset s k = Some a \<Longrightarrow> asset_pk a = k"
  unfolding get_asset_def by (rule find_pk_eq)

lemma get_asset_mem: "get_asset s k = Some a \<Longrightarrow> a \<in> set (assets s)"
  unfolding get_asset_def by (auto simp: find_Some_iff)

lemma find_map_update:
  "find (\<lambda>a. asset_pk a = k) xs = Some a \<Longrightarrow> asset_pk b = k \<Longrightarrow>
   find (\<lambda>a. asset_pk a = k) (map (\<lambda>x. if asset_pk x = k then b else x) xs) = Some b"
  by (induction xs) (auto split: if_splits)

lemma get_asset_save:
  assumes "get_asset s k = Some a" and "asset_pk b = k"
  shows "get_asset (save_asset b s) k = Some b"
proof -
  have "\<exists>x \<in> set (assets s). asset_pk x = asset_pk b"
    using assms get_asset_mem get_asset_pk by blast
  then show ?thesis
    using assms find_map_update [of k "assets s" a b]
    by (simp add: save_asset_def get_asset_def)
qed

lemma save_asset_frame [simp]:
  "history (save_asset b s) = history s"
  "employees (save_asset b s) = employees s"
  "categories (save_asset b s) = categories s"
  "locations (save_asset b s) = locations s"
  "vendors (save_asset b s) = vendors s"
  "outbox (save_asset b s) = outbox s"
  "messages (save_asset b s) = messages s"
  "category_seq (save_asset b s) = category_seq s"
  "location_seq (save_asset b s) = location_seq s"
  "vendor_seq (save_asset b s) = vendor_seq s"
  by (simp_all add: save_asset_def)

lemma create_history_frame [simp]:
  "history (create_history h s) = history s @ [h]"
  "assets (create_history h s) = assets s"
  "employees (create_history h s) = employees s"
  "categories (create_history h s) = categories s"
  "locations (create_history h s) = locations s"
  "vendors (create_history h s) = vendors s"
  "outbox (create_history h s) = outbox s"
  "messages (create_history h s) = messages s"
  "category_seq (create_history h s) = category_seq s"
  "location_seq (create_history h s) = location_seq s"
  "vendor_seq (create_history h s) = vendor_seq s"
  "asset_seq (create_history h s) = asset_seq s"
  by (simp_all add: create_history_def)

lemma add_message_frame [simp]:
  "history (add_message l t s) = history s"
  "assets (add_message l t s) = assets s"
  "employees (add_message l t s) = employees s"
  "categories (add_message l t s) = categories s"
  "locations (add_message l t s) = locations s"
  "vendors (add_message l t s) = vendors s"
  "outbox (add_message l t s) = outbox s"
  "messages (add_message l t s) = messages s @ [(l, t)]"
  "category_seq (add_message l t s) = category_seq s"
  "location_seq (add_message l t s) = location_seq s"
  "vendor_seq (add_message l t s) = vendor_seq s"
  "asset_seq (add_message l t s) = asset_seq s"
  by (simp_all add: add_message_def)

lemma send_mail_frame:
  "send_mail e m s = Inr s' \<Longrightarrow>
     history s' = history s \<and> assets s' = assets s \<and> employees s' = employees s
     \<and> categories s' = categories s \<and> locations s' = locations s \<and> vendors s' = vendors s
     \<and> messages s' = messages s \<and> outbox s' = outbox s @ [m]"
  by (auto simp: send_mail_def split: option.splits)

lemma notify_assign_frame [simp]:
  "history (notify_assign e r a emp s) = history s"
  "assets (notify_assign e r a emp s) = assets s"
  "employees (notify_assign e r a emp s) = employees s"
  "categories (notify_assign e r a emp s) = categories s"
  by (auto simp: notify_assign_def send_assignment_email_def split: sum.splits dest: send_mail_frame)

lemma notify_unassign_frame [simp]:
  "history (notify_unassign e r a emp s) = history s"
  "assets (notify_unassign e r a emp s) = assets s"
  "employees (notify_unassign e r a emp s) = employees s"
  "categories (notify_unassign e r a emp s) = categories s"
  by (auto simp: notify_unassign_def send_unassignment_email_def split: sum.splits dest: send_mail_frame)

lemma get_asset_cong: "assets s' = assets s \<Longrightarrow> get_asset s' k = get_asset s k"
  by (simp add: get_asset_def)

lemma get_employee_cong: "employees s' = employees s \<Longrightarrow> get_employee s' i = get_employee s i"
  by (simp add: get_employee_def)

lemma get_employee_pk: "get_employee s i = Some emp \<Longrightarrow> int (emp_pk emp) = i"
  unfolding get_employee_def by (induction "employees s" arbitrary: s) (auto simp: find_Some_iff)

text \<open>A successful Assign call, step by step.\<close>

lemma assign_asset_post:
  assumes "user r = Some u" and "request_method r = POST"
    and "POST_get r ''employee_id'' = Some eid" and "eid \<noteq> []" and "pk_value eid = Inr i"
    and "get_employee s i = Some emp" and "get_asset s k = Some a"
    and "assigned_employee s a = Inr old_assignee"
  shows "assign_asset e r k s =
           (Redirect ''assets:asset_detail'' (Some k),
            notify_assign e r
              (a\<lparr>assigned_to := Some (emp_pk emp), assigned_date := Some (today e),
                 status := ''assigned''\<rparr>) emp
              (create_history
                 (assigned_row u
                    (a\<lparr>assigned_to := Some (emp_pk emp), assigned_date := Some (today e),
                       status := ''assigned''\<rparr>) old_assignee emp)
                 (save_asset
                    (a\<lparr>assigned_to := Some (emp_pk emp), assigned_date := Some (today e),
                       status := ''assigned''\<rparr>) s)))"
  using assms by (simp add: assign_asset_def login_required_def Let_def)

lemma unassign_asset_post:
  assumes "user r = Some u" and "request_method r = POST" and "get_asset s k = Some a"
    and "assigned_employee s a = Inr (Some old_assignee)"
  shows "unassign_asset e r k s =
           (Redirect ''assets:asset_detail'' (Some k),
            notify_unassign e r
              (a\<lparr>assigned_to := None, assigned_date := None, status := ''available''\<rparr>)
              old_assignee
              (create_history
                 (unassigned_row u
                    (a\<lparr>assigned_to := None, assigned_date := None, status := ''available''\<rparr>)
                    old_assignee)
                 (save_asset
                    (a\<lparr>assigned_to := None, assigned_date := None, status := ''available''\<rparr>)
                    s)))"
  using assms by (simp add: unassign_asset_def login_required_def Let_def)


text \<open>
  C2. For every asset and employee, an Assign call followed by an Unassign call leaves the
  asset with status \<open>available\<close>, no assignee and no assignment date.
\<close>

theorem assign_then_unassign_available:
  assumes "user r1 = Some u1" and "request_method r1 = POST"
    and "POST_get r1 ''employee_id'' = Some eid" and "eid \<noteq> []" and "pk_value eid = Inr i"
    and "get_employee s i = Some emp" and "get_asset s k = Some a"
    and "assigned_employee s a = Inr old_assignee"
    and "user r2 = Some u2" and "request_method r2 = POST"
  shows "\<exists>a'. get_asset (snd (unassign_asset e2 r2 k (snd (assign_asset e1 r1 k s)))) k = Some a'
              \<and> status a' = ''available'' \<and> assigned_to a' = None \<and> assigned_date a' = None"
proof -
  define a1 where "a1 = a\<lparr>assigned_to := Some (emp_pk emp), assigned_date := Some (today e1),
                           status := ''assigned''\<rparr>"
  define s1 where "s1 = snd (assign_asset e1 r1 k s)"
  define a2 where "a2 = a1\<lparr>assigned_to := None, assigned_date := None, status := ''available''\<rparr>"
  have pk_a: "asset_pk a = k" using assms(7) by (rule get_asset_pk)
  have s1_eq: "s1 = notify_assign e1 r1 a1 emp
                      (create_history (assigned_row u1 a1 old_assignee emp) (save_asset a1 s))"
    unfolding s1_def a1_def using assign_asset_post [OF assms(1-8)] by simp
  have "get_asset (save_asset a1 s) k = Some a1"
    using assms(7) by (rule get_asset_save) (simp add: a1_def pk_a)
  then have get1: "get_asset s1 k = Some a1"
    by (simp add: s1_eq get_asset_def)
  have emp1: "get_employee s1 (int (emp_pk emp)) = Some emp"
    using assms(6) get_employee_pk [OF assms(6)] by (simp add: s1_eq get_employee_def)
  have old1: "assigned_employee s1 a1 = Inr (Some emp)"
    using emp1 by (simp add: assigned_employee_def a1_def)
  have "snd (unassign_asset e2 r2 k s1) =
          notify_unassign e2 r2 a2 emp
            (create_history (unassigned_row u2 a2 emp) (save_asset a2 s1))"
    unfolding a2_def using unassign_asset_post [OF assms(9,10) get1 old1] by simp
  moreover have "get_asset (save_asset a2 s1) k = Some a2"
    using get1 by (rule get_asset_save) (simp add: a2_def a1_def pk_a)
  ultimately have "get_asset (snd (unassign_asset e2 r2 k s1)) k = Some a2"
    by (simp add: get_asset_def)
  moreover have "status a2 = ''available'' \<and> assigned_to a2 = None \<and> assigned_date a2 = None"
    by (simp add: a2_def)
  ultimately show ?thesis unfolding s1_def by blast
qed

lemma ex_pk_value: "pk_value ''1'' = Inr 1"
  by (simp add: pk_value_def int_space_def digits_val_def digit_val_def)

lemma ex_get_jane: "get_employee ex_state 1 = Some ex_jane"
  by (simp add: get_employee_def ex_state_def ex_jane_def)

lemma ex_get_asset: "get_asset ex_state 1 = Some ex_asset"
  by (simp add: get_asset_def ex_state_def ex_asset_def)

lemma ex_assigned_none: "assigned_employee ex_state ex_asset = Inr None"
  by (simp add: assigned_employee_def ex_asset_def)

lemma ex_post_simps [simp]:
  "user (ex_post d) = Some ''admin''" "request_method (ex_post d) = POST"
  "POST_get (ex_post d) key = map_of (rev d) key"
  by (simp_all add: ex_post_def POST_get_def)

theorem assign_then_unassign_available_witness:
  "\<exists>a'. get_asset (snd (unassign_asset ex_env (ex_post []) 1
                         (snd (assign_asset ex_env (ex_post [(''employee_id'', ''1'')]) 1 ex_state)))) 1
            = Some a'
        \<and> status a' = ''available'' \<and> assigned_to a' = None \<and> assigned_date a' = None"
  using assign_then_unassign_available
          [of "ex_post [(''employee_id'', ''1'')]" "''admin''" "''1''" 1 ex_state ex_jane 1
              ex_asset None "ex_post []" "''admin''" ex_env ex_env]
        ex_pk_value ex_get_jane ex_get_asset ex_assigned_none
  by simp

section \<open>Assignment, warranty and reports\<close>

text \<open>
  C3, as stated: every call to Unassign would create exactly one AssetHistory row. A POST
  to Unassign for \<open>AST001\<close>, which has no assignee, creates none.
\<close>

theorem unassign_one_row_counterexample:
  "assigned_to ex_asset = None
   \<and> get_asset ex_state 1 = Some ex_asset
   \<and> fst (unassign_asset ex_env (ex_post []) 1 ex_state) = Redirect ''assets:asset_detail'' (Some 1)
   \<and> history (snd (unassign_asset ex_env (ex_post []) 1 ex_state)) = history ex_state"
  by (simp add: unassign_asset_def login_required_def assigned_employee_def get_asset_def
      ex_post_def ex_state_def ex_asset_def)

text \<open>
  C3, amended. Every Assign call (a POST that selects an employee) and every Unassign call
  for an asset that has an assignee appends exactly one AssetHistory row, with action
  \<open>assigned\<close> and \<open>unassigned\<close> respectively, and leaves the earlier rows as they
  were; an Unassign call for an asset without an assignee appends none.
\<close>

theorem assign_unassign_one_history_row:
  "(user r = Some u \<and> request_method r = POST \<and> POST_get r ''employee_id'' = Some eid
      \<and> eid \<noteq> [] \<and> pk_value eid = Inr i \<and> get_employee s i = Some emp
      \<and> get_asset s k = Some a \<and> assigned_employee s a = Inr old_assignee
    \<longrightarrow> (\<exists>h. history (snd (assign_asset e r k s)) = history s @ [h]
              \<and> action h = ''assigned'' \<and> asset h = k))
   \<and> (user r = Some u \<and> request_method r = POST \<and> get_asset s k = Some a
        \<and> assigned_employee s a = Inr (Some old)
       \<longrightarrow> (\<exists>h. history (snd (unassign_asset e r k s)) = history s @ [h]
                 \<and> action h = ''unassigned'' \<and> asset h = k))
   \<and> (user r = Some u \<and> request_method r = POST \<and> get_asset s k = Some a
        \<and> assigned_to a = None
       \<longrightarrow> history (snd (unassign_asset e r k s)) = history s)"
proof (intro conjI impI)
  assume h: "user r = Some u \<and> request_method r = POST \<and> POST_get r ''employee_id'' = Some eid
      \<and> eid \<noteq> [] \<and> pk_value eid = Inr i \<and> get_employee s i = Some emp
      \<and> get_asset s k = Some a \<and> assigned_employee s a = Inr old_assignee"
  then have "asset_pk a = k" by (blast dest: get_asset_pk)
  then show "\<exists>h. history (snd (assign_asset e r k s)) = history s @ [h]
              \<and> action h = ''assigned'' \<and> asset h = k"
    using h assign_asset_post [of r u eid i s emp k a old_assignee e]
    by (simp add: assigned_row_def)
next
  assume h: "user r = Some u \<and> request_method r = POST \<and> get_asset s k = Some a
        \<and> assigned_employee s a = Inr (Some old)"
  then have "asset_pk a = k" by (blast dest: get_asset_pk)
  then show "\<exists>h. history (snd (unassign_asset e r k s)) = history s @ [h]
                 \<and> action h = ''unassigned'' \<and> asset h = k"
    using h unassign_asset_post [of r u s k a old e]
    by (simp add: unassigned_row_def)
next
  assume "user r = Some u \<and> request_method r = POST \<and> get_asset s k = Some a
        \<and> assigned_to a = None"
  then show "history (snd (unassign_asset e r k s)) = history s"
    by (simp add: unassign_asset_def login_required_def assigned_employee_def)
qed

lemma ex_get_assigned_asset: "get_asset ex_assigned_state 1 = Some ex_assigned_asset"
  by (simp add: get_asset_def ex_assigned_state_def ex_assigned_asset_def ex_asset_def)

lemma ex_assigned_jane: "assigned_employee ex_assigned_state ex_assigned_asset = Inr (Some ex_jane)"
  by (simp add: assigned_employee_def get_employee_def ex_assigned_state_def
      ex_assigned_asset_def ex_state_def ex_jane_def)

theorem assign_unassign_one_history_row_witness:
  "(\<exists>h. history (snd (assign_asset ex_env (ex_post [(''employee_id'', ''1'')]) 1 ex_state))
           = history ex_state @ [h] \<and> action h = ''assigned'' \<and> asset h = 1)
   \<and> (\<exists>h. history (snd (unassign_asset ex_env (ex_post []) 1 ex_assigned_state))
           = history ex_assigned_state @ [h] \<and> action h = ''unassigned'' \<and> asset h = 1)
   \<and> history (snd (unassign_asset ex_env (ex_post []) 1 ex_state)) = history ex_state"
proof -
  have a: "\<exists>h. history (snd (assign_asset ex_env (ex_post [(''employee_id'', ''1'')]) 1 ex_state))
           = history ex_state @ [h] \<and> action h = ''assigned'' \<and> asset h = 1"
    using assign_unassign_one_history_row
            [where r = "ex_post [(''employee_id'', ''1'')]" and u = "''admin''" and eid = "''1''"
               and i = 1 and s = ex_state and emp = ex_jane and k = 1 and a = ex_asset
               and old_assignee = None and e = ex_env]
          ex_pk_value ex_get_jane ex_get_asset ex_assigned_none
    by simp
  have b: "\<exists>h. history (snd (unassign_asset ex_env (ex_post []) 1 ex_assigned_state))
           = history ex_assigned_state @ [h] \<and> action h = ''unassigned'' \<and> asset h = 1"
    using assign_unassign_one_history_row
            [where r = "ex_post []" and u = "''admin''" and s = ex_assigned_state and k = 1
               and a = ex_assigned_asset and old = ex_jane and e = ex_env]
          ex_get_assigned_asset ex_assigned_jane
    by simp
  have c: "history (snd (unassign_asset ex_env (ex_post []) 1 ex_state)) = history ex_state"
    using assign_unassign_one_history_row
            [where r = "ex_post []" and u = "''admin''" and s = ex_state and k = 1
               and a = ex_asset and e = ex_env]
          ex_get_asset
    by (simp add: ex_asset_def)
  show ?thesis using a b c by (intro conjI)
qed

text \<open>
  C5. \<open>is_under_warranty\<close> holds exactly when \<open>warranty_expiry\<close> is set and is not
  earlier than today; it is false when \<open>warranty_expiry\<close> is NULL.
\<close>

theorem is_under_warranty_iff:
  "is_under_warranty t a = (\<exists>d. warranty_expiry a = Some d \<and> t \<le> d)
   \<and> is_under_warranty t (a\<lparr>warranty_expiry := None\<rparr>) = False"
  by (simp add: is_under_warranty_def split: option.splits)

text \<open>
  C10. A POST to Unassign for an asset without an assignee changes nothing: the store,
  the outbox and the messages are as before, and the response redirects to the asset's
  detail page.
\<close>

theorem unassign_without_assignee_noop:
  assumes "user r = Some u" and "request_method r = POST"
    and "get_asset s k = Some a" and "assigned_to a = None"
  shows "unassign_asset e r k s = (Redirect ''assets:asset_detail'' (Some k), s)"
  using assms by (simp add: unassign_asset_def login_required_def assigned_employee_def)

theorem unassign_without_assignee_noop_witness:
  "unassign_asset ex_env (ex_post []) 1 ex_state = (Redirect ''assets:asset_detail'' (Some 1), ex_state)"
  using unassign_without_assignee_noop [of "ex_post []" "''admin''" ex_state 1 ex_asset ex_env]
        ex_get_asset
  by (simp add: ex_asset_def)

lemma ex_pk_value_2: "pk_value ''2'' = Inr 2"
  by (simp add: pk_value_def int_space_def digits_val_def digit_val_def)

lemma ex_get_john: "get_employee ex_assigned_state 2 = Some ex_john"
  by (simp add: get_employee_def ex_assigned_state_def ex_state_def ex_jane_def ex_john_def)

text \<open>
  C6. The row written by an Assign call is to hold the prior assignee's name,
  \<open>Employee.full_name\<close>, as \<open>old_value\<close>, as the row written by an Unassign call
  does. Reassigning \<open>AST001\<close> from Jane Doe to John Smith, \<open>assign_asset\<close> writes
  \<open>Jane Doe (EMP001)\<close>, the text of \<open>Employee.__str__\<close>; the \<open>new_value\<close> of the
  same row is the full name of the new assignee.
\<close>

theorem assign_old_value_at_reassign:
  "old_value (last (history (snd (assign_asset ex_env (ex_post [(''employee_id'', ''2'')]) 1
                                    ex_assigned_state))))
     = Some ''Jane Doe (EMP001)''
   \<and> old_value (last (history (snd (assign_asset ex_env (ex_post [(''employee_id'', ''2'')]) 1
                                       ex_assigned_state))))
     \<noteq> Some (full_name ex_jane)
   \<and> new_value (last (history (snd (assign_asset ex_env (ex_post [(''employee_id'', ''2'')]) 1
                                       ex_assigned_state))))
     = Some (full_name ex_john)
   \<and> old_value (last (history (snd (unassign_asset ex_env (ex_post []) 1 ex_assigned_state))))
     = Some (full_name ex_jane)"
  using assign_asset_post
          [of "ex_post [(''employee_id'', ''2'')]" "''admin''" "''2''" 2 ex_assigned_state ex_john 1
              ex_assigned_asset "Some ex_jane" ex_env]
        unassign_asset_post
          [of "ex_post []" "''admin''" ex_assigned_state 1 ex_assigned_asset ex_jane ex_env]
        ex_pk_value_2 ex_get_john ex_get_assigned_asset ex_assigned_jane
  by (simp add: assigned_row_def unassigned_row_def employee_str_def full_name_def ex_jane_def)

text \<open>
  C7, as stated: the three warranty counts would add up to the number of assets with a
  warranty date. An asset whose warranty ends in ten days is counted as valid and as
  expiring.
\<close>

theorem warranty_buckets_counterexample:
  "warranty_valid (reports ex_env ex_warranty_state)
     + warranty_expiring (reports ex_env ex_warranty_state)
     + warranty_expired (reports ex_env ex_warranty_state)
   \<noteq> length (filter (\<lambda>a. warranty_expiry a \<noteq> None) (assets ex_warranty_state))"
  by (simp add: reports_def ex_env_def ex_warranty_state_def expiry_gte_def expiry_lte_def
      expiry_lt_def)

lemma valid_or_expired:
  "length (filter (expiry_gte t) xs) + length (filter (expiry_lt t) xs)
     = length (filter (\<lambda>a. warranty_expiry a \<noteq> None) xs)"
  by (induction xs) (auto simp: expiry_gte_def expiry_lt_def split: option.splits)

lemma length_filter_conj_le:
  "length (filter (\<lambda>a. P a \<and> Q a) xs) \<le> length (filter P xs)"
  by (induction xs) auto

text \<open>
  C7, amended. Every asset with a warranty date is counted in exactly one of the buckets
  valid and expired, so these two counts add up to the number of assets with a warranty
  date; the bucket expiring within 30 days holds assets of the bucket valid only, and the
  three counts add up to that number plus the count of expiring.
\<close>

theorem warranty_buckets:
  "warranty_valid (reports e s) + warranty_expired (reports e s)
     = length (filter (\<lambda>a. warranty_expiry a \<noteq> None) (assets s))
   \<and> warranty_expiring (reports e s) \<le> warranty_valid (reports e s)
   \<and> warranty_valid (reports e s) + warranty_expiring (reports e s)
       + warranty_expired (reports e s)
     = length (filter (\<lambda>a. warranty_expiry a \<noteq> None) (assets s))
       + warranty_expiring (reports e s)
   \<and> (warranty_expiry a \<noteq> None \<longrightarrow> expiry_gte (today e) a \<noteq> expiry_lt (today e) a)"
proof -
  have "warranty_valid (reports e s) + warranty_expired (reports e s)
          = length (filter (\<lambda>a. warranty_expiry a \<noteq> None) (assets s))"
    by (simp add: reports_def valid_or_expired)
  moreover have "warranty_expiring (reports e s) \<le> warranty_valid (reports e s)"
    by (simp add: reports_def length_filter_conj_le)
  moreover have "warranty_expiry a \<noteq> None \<longrightarrow> expiry_gte (today e) a \<noteq> expiry_lt (today e) a"
    by (auto simp: expiry_gte_def expiry_lt_def)
  ultimately show ?thesis by simp
qed

theorem warranty_buckets_witness:
  "warranty_expiry (ex_asset\<lparr>warranty_expiry := Some 739010\<rparr>) \<noteq> None
   \<and> expiry_gte (today ex_env) (ex_asset\<lparr>warranty_expiry := Some 739010\<rparr>)
   \<and> \<not> expiry_lt (today ex_env) (ex_asset\<lparr>warranty_expiry := Some 739010\<rparr>)
   \<and> warranty_valid (reports ex_env ex_warranty_state)
       + warranty_expired (reports ex_env ex_warranty_state) = 1"
  using warranty_buckets [of ex_env ex_warranty_state "ex_asset\<lparr>warranty_expiry := Some 739010\<rparr>"]
  by (simp add: ex_env_def ex_warranty_state_def expiry_gte_def)

section \<open>Bulk import\<close>

subsection \<open>get_or_create on a lookup table\<close>

lemma get_or_create_other:
  "get_or_create m tbl q n = Inr (obj, created, tbl', q') \<Longrightarrow> n \<noteq> n' \<Longrightarrow>
     filter (\<lambda>x. row_name x = n') tbl' = filter (\<lambda>x. row_name x = n') tbl"
  by (auto simp: get_or_create_def Let_def split: list.splits)

lemma get_or_create_new:
  "filter (\<lambda>x. row_name x = n) tbl = [] \<Longrightarrow>
     get_or_create m tbl q n =
       Inr (\<lparr>row_pk = next_pk q (map row_pk tbl), row_name = n\<rparr>, True,
            tbl @ [\<lparr>row_pk = next_pk q (map row_pk tbl), row_name = n\<rparr>],
            next_pk q (map row_pk tbl))"
  by (simp add: get_or_create_def Let_def)

lemma get_or_create_found:
  "filter (\<lambda>x. row_name x = n) tbl = [c] \<Longrightarrow>
     get_or_create m tbl q n = Inr (c, False, tbl, q)"
  by (simp add: get_or_create_def)

subsection \<open>What one row changes\<close>

lemma update_or_create_frame:
  "update_or_create tag d s = Inr (a, created, s') \<Longrightarrow>
     categories s' = categories s \<and> locations s' = locations s \<and> vendors s' = vendors s
     \<and> category_seq s' = category_seq s
     \<and> history s' = history s \<and> employees s' = employees s \<and> outbox s' = outbox s
     \<and> messages s' = messages s"
  by (auto simp: update_or_create_def Let_def split: list.splits)

lemma import_row_categories:
  "categories (snd (import_row u cols r s)) =
     (case lookup_fk ''Category'' cols r ''category'' (categories s) (category_seq s) of
        Inl x \<Rightarrow> categories s
      | Inr (fk, tbl, q) \<Rightarrow> tbl)"
  by (auto simp: import_row_def Let_def split: sum.splits prod.splits dest: update_or_create_frame)

lemma import_row_category_seq:
  "category_seq (snd (import_row u cols r s)) =
     (case lookup_fk ''Category'' cols r ''category'' (categories s) (category_seq s) of
        Inl x \<Rightarrow> category_seq s
      | Inr (fk, tbl, q) \<Rightarrow> q)"
  by (auto simp: import_row_def Let_def split: sum.splits prod.splits dest: update_or_create_frame)

lemma import_row_failed:
  "import_row u cols r s = (Some x, s') \<Longrightarrow>
     assets s' = assets s \<and> history s' = history s \<and> employees s' = employees s
     \<and> outbox s' = outbox s \<and> messages s' = messages s"
  by (auto simp: import_row_def Let_def split: sum.splits prod.splits if_splits)

lemma import_row_frame:
  "employees (snd (import_row u cols r s)) = employees s
   \<and> outbox (snd (import_row u cols r s)) = outbox s
   \<and> messages (snd (import_row u cols r s)) = messages s"
  by (auto simp: import_row_def Let_def split: sum.splits prod.splits dest: update_or_create_frame)


subsection \<open>The loop\<close>

lemma import_rows_snoc:
  "import_rows u cols i (xs @ [x]) acc =
     import_step u cols (i + length xs) x (import_rows u cols i xs acc)"
  by (induction xs arbitrary: i acc) auto

lemma import_upto_0 [simp]:
  "import_upto u cols rs s 0 = \<lparr>store = s, success_count = 0, error_count = 0, errors = []\<rparr>"
  by (simp add: import_upto_def)

lemma import_upto_Suc:
  "j < length rs \<Longrightarrow>
     import_upto u cols rs s (Suc j) = import_step u cols j (rs ! j) (import_upto u cols rs s j)"
  by (simp add: import_upto_def take_Suc_conv_app_nth import_rows_snoc)

lemma import_upto_all:
  "import_upto u cols rs s (length rs) =
     import_rows u cols 0 rs \<lparr>store = s, success_count = 0, error_count = 0, errors = []\<rparr>"
  by (simp add: import_upto_def)

lemma store_import_step:
  "store (import_step u cols i r acc) = snd (import_row u cols r (store acc))"
  by (simp add: import_step_def split: prod.splits option.splits)

subsection \<open>Categories during an import\<close>

lemma lookup_fk_category:
  "lookup_fk m cols r ''category'' tbl q =
     (case row_category cols r of
        None \<Rightarrow> Inr (None, tbl, q)
      | Some n \<Rightarrow>
          (case get_or_create m tbl q n of
             Inl x \<Rightarrow> Inl x
           | Inr (obj, created, tbl', q') \<Rightarrow> Inr (Some (row_pk obj), tbl', q')))"
  by (auto simp: lookup_fk_def row_category_def cell_text_def notna_def row_get_def row_item_def
      split: option.splits cell.splits)

lemma import_row_named:
  "filter (\<lambda>x. row_name x = n) (categories (snd (import_row u cols r s))) =
     (if row_category cols r = Some n \<and> filter (\<lambda>x. row_name x = n) (categories s) = []
      then [\<lparr>row_pk = next_pk (category_seq s) (map row_pk (categories s)), row_name = n\<rparr>]
      else filter (\<lambda>x. row_name x = n) (categories s))"
proof (cases "row_category cols r")
  case None
  then show ?thesis by (simp add: import_row_categories lookup_fk_category)
next
  case (Some n')
  show ?thesis
  proof (cases "n' = n")
    case True
    show ?thesis
    proof (cases "filter (\<lambda>x. row_name x = n) (categories s)")
      case Nil
      then show ?thesis
        using Some True
        by (simp add: import_row_categories lookup_fk_category get_or_create_new)
    next
      case (Cons c cs)
      then show ?thesis
        using Some True
        by (cases cs) (simp_all add: import_row_categories lookup_fk_category get_or_create_def)
    qed
  next
    case False
    then show ?thesis
      using Some
      by (auto simp: import_row_categories lookup_fk_category
          split: sum.splits dest: get_or_create_other)
  qed
qed

lemma import_upto_named_before:
  assumes "filter (\<lambda>x. row_name x = n) (categories s) = []"
    and "\<forall>j < i. row_category cols (rs ! j) \<noteq> Some n" and "i \<le> length rs"
  shows "j \<le> i \<Longrightarrow> filter (\<lambda>x. row_name x = n) (categories (store (import_upto u cols rs s j))) = []"
proof (induction j)
  case 0
  then show ?case using assms(1) by simp
next
  case (Suc j)
  then have "j < length rs" and "row_category cols (rs ! j) \<noteq> Some n"
    using assms(2,3) by auto
  then show ?case
    using Suc by (simp add: import_upto_Suc store_import_step import_row_named)
qed

lemma import_upto_named_after:
  assumes "filter (\<lambda>x. row_name x = n) (categories (store (import_upto u cols rs s i))) = [c]"
  shows "i \<le> j \<Longrightarrow> j \<le> length rs \<Longrightarrow>
           filter (\<lambda>x. row_name x = n) (categories (store (import_upto u cols rs s j))) = [c]"
proof (induction j)
  case 0
  then show ?case using assms by simp
next
  case (Suc j)
  show ?case
  proof (cases "i = Suc j")
    case True
    then show ?thesis using assms by simp
  next
    case False
    then have "i \<le> j" and "j < length rs" using Suc.prems by auto
    then show ?thesis
      using Suc.IH by (simp add: import_upto_Suc store_import_step import_row_named)
  qed
qed

subsection \<open>Counters and error list of the loop\<close>

lemma import_step_counts:
  "success_count (import_step u cols i r acc) + error_count (import_step u cols i r acc)
     = Suc (success_count acc + error_count acc)"
  by (simp add: import_step_def split: prod.splits option.splits)

lemma import_upto_counts:
  "j \<le> length rs \<Longrightarrow>
     success_count (import_upto u cols rs s j) + error_count (import_upto u cols rs s j) = j"
  by (induction j) (simp_all add: import_upto_Suc import_step_counts)

lemma import_step_errors_length:
  "length (errors acc) = error_count acc \<Longrightarrow>
     length (errors (import_step u cols i r acc)) = error_count (import_step u cols i r acc)"
  by (simp add: import_step_def split: prod.splits option.splits)

lemma import_upto_errors_length:
  "j \<le> length rs \<Longrightarrow>
     length (errors (import_upto u cols rs s j)) = error_count (import_upto u cols rs s j)"
  by (induction j) (simp_all add: import_upto_Suc import_step_errors_length)

lemma import_step_errors_mono:
  "set (errors acc) \<subseteq> set (errors (import_step u cols i r acc))"
  by (auto simp: import_step_def split: prod.splits option.splits)

lemma import_upto_errors_mono:
  "j \<le> k \<Longrightarrow> k \<le> length rs \<Longrightarrow>
     set (errors (import_upto u cols rs s j)) \<subseteq> set (errors (import_upto u cols rs s k))"
proof (induction k)
  case 0
  then show ?case by simp
next
  case (Suc k)
  show ?case
  proof (cases "j = Suc k")
    case True
    then show ?thesis by simp
  next
    case False
    then have "j \<le> k" and "k < length rs" using Suc.prems by auto
    then show ?thesis
      using Suc.IH import_step_errors_mono [of "import_upto u cols rs s k" u cols k "rs ! k"]
      by (auto simp: import_upto_Suc)
  qed
qed

lemma import_upto_messages:
  "j \<le> length rs \<Longrightarrow> messages (store (import_upto u cols rs s j)) = messages s"
  by (induction j) (simp_all add: import_upto_Suc store_import_step import_row_frame)

lemma fold_row_errors:
  "messages (fold (\<lambda>(i, x). add_message Error (RowError i x)) es s)
     = messages s @ map (\<lambda>(i, x). (Error, RowError i x)) es"
  by (induction es arbitrary: s) (auto simp: case_prod_beta)

lemma import_messages_messages:
  "messages (import_messages acc) =
     messages (store acc)
     @ (if 0 < success_count acc then [(Success, SuccessfullyImported (success_count acc))] else [])
     @ (if 0 < error_count acc
        then (Warning, RowsHadErrors (error_count acc))
             # map (\<lambda>(i, x). (Error, RowError i x)) (take 5 (errors acc))
        else [])"
  by (simp add: import_messages_def Let_def fold_row_errors)

subsection \<open>Primary keys and tags of the assets during an import\<close>

lemma fold_max_ge: "a \<le> fold max ks (a::nat)"
  by (induction ks arbitrary: a) (auto intro: order_trans [OF max.cobounded2])

lemma fold_max_mem: "k \<in> set ks \<Longrightarrow> k \<le> fold max ks (a::nat)"
proof (induction ks arbitrary: a)
  case Nil
  then show ?case by simp
next
  case (Cons x ks)
  show ?case
  proof (cases "k = x")
    case True
    have "x \<le> max x a" by simp
    also have "\<dots> \<le> fold max ks (max x a)" by (rule fold_max_ge)
    finally show ?thesis using True by simp
  next
    case False
    then show ?thesis using Cons by simp
  qed
qed

lemma next_pk_fresh: "next_pk q ks \<notin> set ks" and next_pk_above: "q < next_pk q ks"
  using fold_max_mem [of "next_pk q ks" ks 0] by (auto simp: next_pk_def)

lemma map_fst_asset_keys: "map fst (asset_keys s) = map asset_pk (assets s)"
  by (simp add: asset_keys_def comp_def)

lemma map_snd_asset_keys: "map snd (asset_keys s) = map asset_tag (assets s)"
  by (simp add: asset_keys_def comp_def)

lemma map_update_same_key:
  assumes "distinct (map asset_pk xs)" and "a \<in> set xs"
    and "asset_pk b = asset_pk a" and "asset_tag b = asset_tag a"
  shows "map (\<lambda>x. (asset_pk x, asset_tag x)) (map (\<lambda>x. if asset_pk x = asset_pk a then b else x) xs)
           = map (\<lambda>x. (asset_pk x, asset_tag x)) xs"
proof -
  have "\<forall>x \<in> set xs. asset_pk x = asset_pk a \<longrightarrow> x = a"
    using assms(1,2) by (auto simp: distinct_map dest: inj_onD)
  then show ?thesis
    using assms(3,4) by (induction xs) auto
qed

lemma import_defaults_keys [simp]:
  "asset_pk (import_defaults u r nm c l v cost a) = asset_pk a"
  "asset_tag (import_defaults u r nm c l v cost a) = asset_tag a"
  "category (import_defaults u r nm c l v cost a) = c"
  by (simp_all add: import_defaults_def)

lemma update_or_create_keys:
  assumes "update_or_create tag (import_defaults u r nm c l v cost) s = Inr (a, created, s')"
    and "distinct (map asset_pk (assets s))"
  shows "distinct (map asset_pk (assets s')) \<and> prefix (asset_keys s) (asset_keys s')"
proof (cases "filter (\<lambda>a. asset_tag a = tag) (assets s)")
  case Nil
  then show ?thesis
    using assms next_pk_fresh [of "asset_seq s" "map asset_pk (assets s)"]
    by (auto simp: update_or_create_def Let_def new_asset_def asset_keys_def)
next
  case (Cons b bs)
  then have "b \<in> set (filter (\<lambda>a. asset_tag a = tag) (assets s))" by simp
  then have b: "b \<in> set (assets s)" by simp
  show ?thesis
  proof (cases bs)
    case Nil
    define b' where "b' = import_defaults u r nm c l v cost b"
    have eq: "s' = save_asset b' s"
      using assms(1) Cons Nil by (auto simp: update_or_create_def Let_def b'_def)
    have "\<exists>x\<in>set (assets s). asset_pk x = asset_pk b'" using b by (auto simp: b'_def)
    then have A: "assets s' = map (\<lambda>x. if asset_pk x = asset_pk b then b' else x) (assets s)"
      by (simp add: eq save_asset_def b'_def)
    have K: "asset_keys s' = asset_keys s"
      unfolding asset_keys_def A
      by (rule map_update_same_key [OF assms(2) b]) (simp_all add: b'_def)
    then have "map asset_pk (assets s') = map asset_pk (assets s)"
      using map_fst_asset_keys [of s'] map_fst_asset_keys [of s] by simp
    then show ?thesis using K assms(2) by simp
  next
    case (Cons b' bs')
    then show ?thesis using assms(1) \<open>filter (\<lambda>a. asset_tag a = tag) (assets s) = b # bs\<close>
      by (simp add: update_or_create_def)
  qed
qed

text \<open>The asset that \<open>update_or_create\<close> returns is in the store under the tag asked for.\<close>

lemma update_or_create_result:
  assumes "update_or_create tag (import_defaults u r nm c l v cost) s = Inr (a, created, s')"
  shows "a \<in> set (assets s') \<and> asset_tag a = tag \<and> category a = c"
proof (cases "filter (\<lambda>a. asset_tag a = tag) (assets s)")
  case Nil
  then show ?thesis
    using assms by (auto simp: update_or_create_def Let_def new_asset_def)
next
  case (Cons b bs)
  then have "b \<in> set (filter (\<lambda>a. asset_tag a = tag) (assets s))" by simp
  then have b: "b \<in> set (assets s)" and tag: "asset_tag b = tag" by simp_all
  show ?thesis
  proof (cases bs)
    case Nil
    define b' where "b' = import_defaults u r nm c l v cost b"
    have eq: "s' = save_asset b' s" and a: "a = b'"
      using assms(1) Cons Nil by (auto simp: update_or_create_def Let_def b'_def)
    have "\<exists>x\<in>set (assets s). asset_pk x = asset_pk b'" using b by (auto simp: b'_def)
    then have A: "assets s' = map (\<lambda>x. if asset_pk x = asset_pk b then b' else x) (assets s)"
      by (simp add: eq save_asset_def b'_def)
    have "b' \<in> set (assets s')"
      unfolding A using b by (auto simp: image_iff intro!: bexI [of _ b])
    then show ?thesis using a tag by (simp add: b'_def)
  next
    case (Cons b' bs')
    then show ?thesis using assms(1) \<open>filter (\<lambda>a. asset_tag a = tag) (assets s) = b # bs\<close>
      by (simp add: update_or_create_def)
  qed
qed

text \<open>
  A row either raises, and then leaves assets and history as they were, or reaches
  \<open>update_or_create\<close>, with the category that its lookup gave, on a store with these
  assets and this history, and returns.
\<close>

lemma import_row_outcome:
  "(\<exists>x s'. import_row u cols r s = (Some x, s')
             \<and> assets s' = assets s \<and> asset_seq s' = asset_seq s \<and> history s' = history s)
   \<or> (\<exists>nm c tbl1 q1 l v cost a created s3 s4.
         lookup_fk ''Category'' cols r ''category'' (categories s) (category_seq s)
           = Inr (c, tbl1, q1)
         \<and> update_or_create (the (row_tag r)) (import_defaults u r nm c l v cost) s3
           = Inr (a, created, s4)
         \<and> row_tag r \<noteq> None
         \<and> assets s3 = assets s \<and> asset_seq s3 = asset_seq s \<and> history s3 = history s
         \<and> import_row u cols r s
             = (None, if created then create_history (imported_row u a) s4 else s4))"
proof (cases "lookup_fk ''Category'' cols r ''category'' (categories s) (category_seq s)")
  case Inl
  then show ?thesis by (simp add: import_row_def)
next
  case (Inr p1)
  note L1 = Inr
  obtain c tbl1 q1 where p1: "p1 = (c, tbl1, q1)" by (cases p1)
  define s1 where "s1 = s\<lparr>categories := tbl1, category_seq := q1\<rparr>"
  show ?thesis
  proof (cases "lookup_fk ''Location'' cols r ''location'' (locations s1) (location_seq s1)")
    case Inl
    then show ?thesis using L1 p1 by (simp add: import_row_def Let_def s1_def)
  next
    case (Inr p2)
    note L2 = Inr
    obtain l tbl2 q2 where p2: "p2 = (l, tbl2, q2)" by (cases p2)
    define s2 where "s2 = s1\<lparr>locations := tbl2, location_seq := q2\<rparr>"
    show ?thesis
    proof (cases "lookup_fk ''Vendor'' cols r ''vendor'' (vendors s2) (vendor_seq s2)")
      case Inl
      then show ?thesis
        using L1 p1 L2 p2 by (simp add: import_row_def Let_def s1_def s2_def)
    next
      case (Inr p3)
      obtain v tbl3 q3 where p3: "p3 = (v, tbl3, q3)" by (cases p3)
      define s3 where "s3 = s2\<lparr>vendors := tbl3, vendor_seq := q3\<rparr>"
      have s3_assets: "assets s3 = assets s \<and> asset_seq s3 = asset_seq s \<and> history s3 = history s"
        by (simp add: s3_def s2_def s1_def)
      have unfold: "import_row u cols r s =
          (case row_item r ''asset_tag'' of
             Inl x \<Rightarrow> (Some x, s3)
           | Inr tag \<Rightarrow>
          (case row_item r ''name'' of
             Inl x \<Rightarrow> (Some x, s3)
           | Inr nm \<Rightarrow>
          (case row_cost cols r of
             Inl x \<Rightarrow> (Some x, s3)
           | Inr cost \<Rightarrow>
          (case update_or_create (strip (str_cell tag))
                  (import_defaults u r (strip (str_cell nm)) c l v cost) s3 of
             Inl x \<Rightarrow> (Some x, s3)
           | Inr (a, created, s4) \<Rightarrow>
               (None, if created then create_history (imported_row u a) s4 else s4)))))"
        unfolding s3_def s2_def s1_def
        using L1 p1 L2 p2 Inr p3
        by (simp add: import_row_def Let_def s1_def s2_def)
      show ?thesis
      proof (cases "row_item r ''asset_tag''")
        case Inl
        then show ?thesis by (simp add: unfold s3_assets)
      next
        case (Inr tag)
        note T = Inr
        show ?thesis
        proof (cases "row_item r ''name''")
          case Inl
          then show ?thesis by (simp add: unfold T s3_assets)
        next
          case (Inr nm)
          note N = Inr
          show ?thesis
          proof (cases "row_cost cols r")
            case Inl
            then show ?thesis by (simp add: unfold T N s3_assets)
          next
            case (Inr cost)
            note C = Inr
            show ?thesis
            proof (cases "update_or_create (strip (str_cell tag))
                            (import_defaults u r (strip (str_cell nm)) c l v cost) s3")
              case Inl
              then show ?thesis by (simp add: unfold T N C s3_assets)
            next
              case (Inr q)
              obtain a created s4 where q: "q = (a, created, s4)" by (cases q)
              have tag: "row_tag r \<noteq> None \<and> the (row_tag r) = strip (str_cell tag)"
                using T by (auto simp: row_tag_def row_get_def row_item_def split: option.splits)
              have res: "import_row u cols r s
                      = (None, if created then create_history (imported_row u a) s4 else s4)"
                using Inr q by (simp add: unfold T N C)
              have uc: "update_or_create (the (row_tag r))
                          (import_defaults u r (strip (str_cell nm)) c l v cost) s3
                        = Inr (a, created, s4)"
                using Inr q tag by simp
              have lk: "lookup_fk ''Category'' cols r ''category'' (categories s) (category_seq s)
                          = Inr (c, tbl1, q1)"
                using L1 p1 by simp
              show ?thesis using lk uc res s3_assets tag by blast
            qed
          qed
        qed
      qed
    qed
  qed
qed

lemma import_row_keys:
  assumes "distinct (map asset_pk (assets s))"
  shows "distinct (map asset_pk (assets (snd (import_row u cols r s))))
         \<and> prefix (asset_keys s) (asset_keys (snd (import_row u cols r s)))"
  using import_row_outcome [of u cols r s]
proof (elim disjE exE conjE)
  fix x s'
  assume "import_row u cols r s = (Some x, s')" and "assets s' = assets s"
  then show ?thesis using assms by (simp add: asset_keys_def)
next
  fix nm c tbl1 q1 l v cost a created s3 s4
  assume uc: "update_or_create (the (row_tag r)) (import_defaults u r nm c l v cost) s3
                = Inr (a, created, s4)"
    and s3: "assets s3 = assets s"
    and res: "import_row u cols r s
                = (None, if created then create_history (imported_row u a) s4 else s4)"
  have s4: "assets (snd (import_row u cols r s)) = assets s4"
    by (simp add: res create_history_def)
  have "distinct (map asset_pk (assets s3))" using assms s3 by simp
  from update_or_create_keys [OF uc this] show ?thesis
    by (simp add: asset_keys_def s3 s4)
qed

text \<open>A row that returns has its asset in the store, under its tag and with its category.\<close>

lemma import_row_imported:
  assumes "fst (import_row u cols r s) = None"
  shows "\<exists>a tag c tbl q. a \<in> set (assets (snd (import_row u cols r s)))
           \<and> row_tag r = Some tag \<and> asset_tag a = tag
           \<and> lookup_fk ''Category'' cols r ''category'' (categories s) (category_seq s)
               = Inr (c, tbl, q)
           \<and> category a = c"
  using import_row_outcome [of u cols r s]
proof (elim disjE exE conjE)
  fix x s'
  assume "import_row u cols r s = (Some x, s')"
  then show ?thesis using assms by simp
next
  fix nm c tbl1 q1 l v cost a created s3 s4
  assume lk: "lookup_fk ''Category'' cols r ''category'' (categories s) (category_seq s)
                = Inr (c, tbl1, q1)"
    and uc: "update_or_create (the (row_tag r)) (import_defaults u r nm c l v cost) s3
                = Inr (a, created, s4)"
    and tag: "row_tag r \<noteq> None"
    and res: "import_row u cols r s
                = (None, if created then create_history (imported_row u a) s4 else s4)"
  have s4: "assets (snd (import_row u cols r s)) = assets s4"
    by (simp add: res create_history_def)
  from update_or_create_result [OF uc] tag lk show ?thesis
    unfolding s4 by auto
qed

subsection \<open>One Category for a name\<close>

text \<open>
  C8. In one bulk import into a store with no Category named \<open>n\<close>, let row \<open>i\<close> be
  the first whose category column holds a name that strips to \<open>n\<close>. Up to that row
  there is no such Category; that row creates exactly one; and from then on, to the end
  of the import, it stays the only one, every later row with that name getting it back
  from its lookup, which leaves the table as it is. The asset of every such row that is
  imported, the first included, points to that Category.
\<close>

theorem bulk_import_category_created_once:
  assumes "filter (\<lambda>x. row_name x = n) (categories s) = []"
    and "i < length rs"
    and "row_category cols (rs ! i) = Some n"
    and "\<forall>j < i. row_category cols (rs ! j) \<noteq> Some n"
  shows "\<exists>c. row_name c = n
           \<and> (\<forall>j \<le> i. filter (\<lambda>x. row_name x = n)
                          (categories (store (import_upto u cols rs s j))) = [])
           \<and> categories (store (import_upto u cols rs s (Suc i)))
               = categories (store (import_upto u cols rs s i)) @ [c]
           \<and> (\<forall>j. i < j \<and> j \<le> length rs \<longrightarrow>
                  filter (\<lambda>x. row_name x = n)
                    (categories (store (import_upto u cols rs s j))) = [c])
           \<and> (\<forall>j. i < j \<and> j < length rs \<and> row_category cols (rs ! j) = Some n \<longrightarrow>
                  lookup_fk ''Category'' cols (rs ! j) ''category''
                    (categories (store (import_upto u cols rs s j)))
                    (category_seq (store (import_upto u cols rs s j)))
                  = Inr (Some (row_pk c), categories (store (import_upto u cols rs s j)),
                         category_seq (store (import_upto u cols rs s j))))
           \<and> (\<forall>j. i \<le> j \<and> j < length rs \<and> row_category cols (rs ! j) = Some n
                    \<and> fst (import_row u cols (rs ! j) (store (import_upto u cols rs s j))) = None
                  \<longrightarrow> (\<exists>a \<in> set (assets (store (import_upto u cols rs s (Suc j)))).
                         row_tag (rs ! j) = Some (asset_tag a)
                         \<and> category a = Some (row_pk c)))"
proof -
  define si where "si = store (import_upto u cols rs s i)"
  define c where
    "c = \<lparr>row_pk = next_pk (category_seq si) (map row_pk (categories si)), row_name = n\<rparr>"
  have before: "\<forall>j \<le> i. filter (\<lambda>x. row_name x = n)
                          (categories (store (import_upto u cols rs s j))) = []"
    using import_upto_named_before [OF assms(1,4)] assms(2) by simp
  then have none_i: "filter (\<lambda>x. row_name x = n) (categories si) = []"
    by (simp add: si_def)
  have first: "lookup_fk ''Category'' cols (rs ! i) ''category'' (categories si) (category_seq si)
                 = Inr (Some (row_pk c), categories si @ [c], row_pk c)"
    using assms(3) none_i by (simp add: lookup_fk_category get_or_create_new c_def)
  have step: "categories (store (import_upto u cols rs s (Suc i))) = categories si @ [c]"
    using assms(2) first
    by (simp add: import_upto_Suc store_import_step import_row_categories si_def)
  then have one: "filter (\<lambda>x. row_name x = n)
                    (categories (store (import_upto u cols rs s (Suc i)))) = [c]"
    using none_i by (simp add: c_def)
  have after: "\<forall>j. i < j \<and> j \<le> length rs \<longrightarrow>
                 filter (\<lambda>x. row_name x = n)
                   (categories (store (import_upto u cols rs s j))) = [c]"
    using import_upto_named_after [OF one] by (simp add: Suc_le_eq)
  have reuse: "\<forall>j. i < j \<and> j < length rs \<and> row_category cols (rs ! j) = Some n \<longrightarrow>
                  lookup_fk ''Category'' cols (rs ! j) ''category''
                    (categories (store (import_upto u cols rs s j)))
                    (category_seq (store (import_upto u cols rs s j)))
                  = Inr (Some (row_pk c), categories (store (import_upto u cols rs s j)),
                         category_seq (store (import_upto u cols rs s j)))"
    using after by (simp add: lookup_fk_category get_or_create_found)
  have linked: "\<forall>j. i \<le> j \<and> j < length rs \<and> row_category cols (rs ! j) = Some n
                    \<and> fst (import_row u cols (rs ! j) (store (import_upto u cols rs s j))) = None
                  \<longrightarrow> (\<exists>a \<in> set (assets (store (import_upto u cols rs s (Suc j)))).
                         row_tag (rs ! j) = Some (asset_tag a)
                         \<and> category a = Some (row_pk c))"
  proof (intro allI impI)
    fix j
    assume h: "i \<le> j \<and> j < length rs \<and> row_category cols (rs ! j) = Some n
                \<and> fst (import_row u cols (rs ! j) (store (import_upto u cols rs s j))) = None"
    let ?sj = "store (import_upto u cols rs s j)"
    have lk: "\<exists>tbl q. lookup_fk ''Category'' cols (rs ! j) ''category'' (categories ?sj)
                    (category_seq ?sj) = Inr (Some (row_pk c), tbl, q)"
    proof (cases "j = i")
      case True
      then show ?thesis using first by (auto simp: si_def)
    next
      case False
      then have "i < j" using h by simp
      then show ?thesis using reuse h by blast
    qed
    have none: "fst (import_row u cols (rs ! j) ?sj) = None" using h by simp
    obtain a tag c' tbl' q'
      where a: "a \<in> set (assets (snd (import_row u cols (rs ! j) ?sj)))"
        and tag: "row_tag (rs ! j) = Some tag" "asset_tag a = tag"
        and lk': "lookup_fk ''Category'' cols (rs ! j) ''category'' (categories ?sj)
               (category_seq ?sj) = Inr (c', tbl', q')"
        and cat: "category a = c'"
      using import_row_imported [OF none] by blast
    have "c' = Some (row_pk c)" using lk lk' by auto
    then have "a \<in> set (assets (store (import_upto u cols rs s (Suc j))))
                       \<and> row_tag (rs ! j) = Some (asset_tag a)
                       \<and> category a = Some (row_pk c)"
      using h a tag cat by (simp add: import_upto_Suc store_import_step)
    then show "\<exists>a \<in> set (assets (store (import_upto u cols rs s (Suc j)))).
                 row_tag (rs ! j) = Some (asset_tag a) \<and> category a = Some (row_pk c)"
      by blast
  qed
  have "row_name c = n" by (simp add: c_def)
  then show ?thesis using before step after reuse linked unfolding si_def by blast
qed

lemma ex_row_category:
  "row_category ex_cols (ex_rows ! 0) = Some ''Laptop''"
  by code_simp

lemma ex_categories:
  "categories (snd (bulk_import ex_upload ex_state)) = [\<lparr>row_pk = 1, row_name = ''Laptop''\<rparr>]"
  "map (\<lambda>a. (asset_tag a, category a)) (assets (snd (bulk_import ex_upload ex_state)))
     = [(''AST001'', None), (''AST100'', Some 1), (''AST102'', Some 1)]"
  "row_category ex_cols (ex_rows ! 2) = Some ''Laptop''"
  by code_simp+

theorem bulk_import_category_created_once_witness:
  "(\<exists>c. row_name c = ''Laptop''
      \<and> (\<forall>j \<le> 0. filter (\<lambda>x. row_name x = ''Laptop'')
                      (categories (store (import_upto ''admin'' ex_cols ex_rows ex_state j))) = [])
      \<and> categories (store (import_upto ''admin'' ex_cols ex_rows ex_state (Suc 0)))
          = categories (store (import_upto ''admin'' ex_cols ex_rows ex_state 0)) @ [c]
      \<and> (\<forall>j. 0 < j \<and> j \<le> length ex_rows \<longrightarrow>
             filter (\<lambda>x. row_name x = ''Laptop'')
               (categories (store (import_upto ''admin'' ex_cols ex_rows ex_state j))) = [c])
      \<and> (\<forall>j. 0 < j \<and> j < length ex_rows \<and> row_category ex_cols (ex_rows ! j) = Some ''Laptop'' \<longrightarrow>
             lookup_fk ''Category'' ex_cols (ex_rows ! j) ''category''
               (categories (store (import_upto ''admin'' ex_cols ex_rows ex_state j)))
               (category_seq (store (import_upto ''admin'' ex_cols ex_rows ex_state j)))
             = Inr (Some (row_pk c),
                    categories (store (import_upto ''admin'' ex_cols ex_rows ex_state j)),
                    category_seq (store (import_upto ''admin'' ex_cols ex_rows ex_state j))))
      \<and> (\<forall>j. 0 \<le> j \<and> j < length ex_rows \<and> row_category ex_cols (ex_rows ! j) = Some ''Laptop''
               \<and> fst (import_row ''admin'' ex_cols (ex_rows ! j)
                        (store (import_upto ''admin'' ex_cols ex_rows ex_state j))) = None
             \<longrightarrow> (\<exists>a \<in> set (assets (store (import_upto ''admin'' ex_cols ex_rows ex_state (Suc j)))).
                    row_tag (ex_rows ! j) = Some (asset_tag a)
                    \<and> category a = Some (row_pk c))))
   \<and> row_category ex_cols (ex_rows ! 2) = Some ''Laptop''
   \<and> categories (snd (bulk_import ex_upload ex_state)) = [\<lparr>row_pk = 1, row_name = ''Laptop''\<rparr>]
   \<and> map (\<lambda>a. (asset_tag a, category a)) (assets (snd (bulk_import ex_upload ex_state)))
       = [(''AST001'', None), (''AST100'', Some 1), (''AST102'', Some 1)]"
proof -
  have "filter (\<lambda>x. row_name x = ''Laptop'') (categories ex_state) = []"
    by (simp add: ex_state_def)
  moreover have "0 < length ex_rows" by (simp add: ex_rows_def)
  moreover note ex_row_category
  moreover have "\<forall>j < 0. row_category ex_cols (ex_rows ! j) \<noteq> Some ''Laptop''" by simp
  ultimately have
    "\<exists>c. row_name c = ''Laptop''
      \<and> (\<forall>j \<le> 0. filter (\<lambda>x. row_name x = ''Laptop'')
                      (categories (store (import_upto ''admin'' ex_cols ex_rows ex_state j))) = [])
      \<and> categories (store (import_upto ''admin'' ex_cols ex_rows ex_state (Suc 0)))
          = categories (store (import_upto ''admin'' ex_cols ex_rows ex_state 0)) @ [c]
      \<and> (\<forall>j. 0 < j \<and> j \<le> length ex_rows \<longrightarrow>
             filter (\<lambda>x. row_name x = ''Laptop'')
               (categories (store (import_upto ''admin'' ex_cols ex_rows ex_state j))) = [c])
      \<and> (\<forall>j. 0 < j \<and> j < length ex_rows \<and> row_category ex_cols (ex_rows ! j) = Some ''Laptop'' \<longrightarrow>
             lookup_fk ''Category'' ex_cols (ex_rows ! j) ''category''
               (categories (store (import_upto ''admin'' ex_cols ex_rows ex_state j)))
               (category_seq (store (import_upto ''admin'' ex_cols ex_rows ex_state j)))
             = Inr (Some (row_pk c),
                    categories (store (import_upto ''admin'' ex_cols ex_rows ex_state j)),
                    category_seq (store (import_upto ''admin'' ex_cols ex_rows ex_state j))))
      \<and> (\<forall>j. 0 \<le> j \<and> j < length ex_rows \<and> row_category ex_cols (ex_rows ! j) = Some ''Laptop''
               \<and> fst (import_row ''admin'' ex_cols (ex_rows ! j)
                        (store (import_upto ''admin'' ex_cols ex_rows ex_state j))) = None
             \<longrightarrow> (\<exists>a \<in> set (assets (store (import_upto ''admin'' ex_cols ex_rows ex_state (Suc j)))).
                    row_tag (ex_rows ! j) = Some (asset_tag a)
                    \<and> category a = Some (row_pk c)))"
    by (rule bulk_import_category_created_once)
  then show ?thesis using ex_categories by (intro conjI)
qed

subsection \<open>A row that fails\<close>

lemma import_upto_keys:
  assumes "distinct (map asset_pk (assets s))"
  shows "j \<le> length rs \<Longrightarrow> distinct (map asset_pk (assets (store (import_upto u cols rs s j))))"
proof (induction j)
  case 0
  then show ?case using assms by simp
next
  case (Suc j)
  then show ?case
    using import_row_keys [of "store (import_upto u cols rs s j)" u cols "rs ! j"]
    by (simp add: import_upto_Suc store_import_step)
qed

lemma import_upto_keys_mono:
  assumes "distinct (map asset_pk (assets s))"
  shows "j \<le> k \<Longrightarrow> k \<le> length rs \<Longrightarrow>
           prefix (asset_keys (store (import_upto u cols rs s j)))
                  (asset_keys (store (import_upto u cols rs s k)))"
proof (induction k)
  case 0
  then show ?case by simp
next
  case (Suc k)
  show ?case
  proof (cases "j = Suc k")
    case True
    then show ?thesis by simp
  next
    case False
    then have jk: "j \<le> k" and k: "k < length rs" using Suc.prems by auto
    have "prefix (asset_keys (store (import_upto u cols rs s j)))
                 (asset_keys (store (import_upto u cols rs s k)))"
      using Suc.IH jk k by simp
    also have "distinct (map asset_pk (assets (store (import_upto u cols rs s k))))"
      using import_upto_keys [OF assms, of k rs u cols] k by simp
    then have "prefix (asset_keys (store (import_upto u cols rs s k)))
                      (asset_keys (store (import_upto u cols rs s (Suc k))))"
      using import_row_keys [of "store (import_upto u cols rs s k)" u cols "rs ! k"] k
      by (simp add: import_upto_Suc store_import_step)
    finally show ?thesis .
  qed
qed

lemma import_upto_tags_mono:
  assumes "distinct (map asset_pk (assets s))" and "j \<le> k" and "k \<le> length rs"
  shows "set (map asset_tag (assets (store (import_upto u cols rs s j))))
           \<subseteq> set (map asset_tag (assets (store (import_upto u cols rs s k))))"
proof -
  have "prefix (map snd (asset_keys (store (import_upto u cols rs s j))))
               (map snd (asset_keys (store (import_upto u cols rs s k))))"
    using import_upto_keys_mono [OF assms] by (rule map_mono_prefix)
  then show ?thesis
    unfolding map_snd_asset_keys by (rule set_mono_prefix)
qed

lemma bulk_import_upload:
  assumes "user request = Some u" and "request_method request = POST"
    and "FILES_file request = Some upl" and "endswith (file_name upl) [''.xlsx'', ''.xls'']"
    and "read_excel upl = Inr df"
    and "''asset_tag'' \<in> set (columns df)" and "''name'' \<in> set (columns df)"
  shows "bulk_import request s =
           (Redirect ''assets:asset_list'' None,
            import_messages (import_upto u (columns df) (rows df) s (length (rows df))))"
  using assms by (simp add: bulk_import_def login_required_def import_upto_def)

lemma import_step_success:
  "fst (import_row u cols r (store acc)) = None \<Longrightarrow>
     import_step u cols i r acc =
       acc\<lparr>store := snd (import_row u cols r (store acc)),
           success_count := success_count acc + 1\<rparr>"
  by (cases "import_row u cols r (store acc)") (auto simp: import_step_def)

lemma import_step_error:
  "fst (import_row u cols r (store acc)) = Some y \<Longrightarrow>
     import_step u cols i r acc =
       acc\<lparr>store := snd (import_row u cols r (store acc)),
           error_count := error_count acc + 1,
           errors := errors acc @ [(i + 2, y)]\<rparr>"
  by (cases "import_row u cols r (store acc)") (auto simp: import_step_def)

lemma filter_row_errors:
  "filter (\<lambda>m. fst m = Error) (map (\<lambda>(n, y). (Error, RowError n y)) es)
     = map (\<lambda>(n, y). (Error, RowError n y)) es"
  by (induction es) (auto simp: case_prod_beta)

text \<open>
  C9. When row \<open>i\<close> of a bulk import raises, the error count goes up by one, the
  message for that row (its number \<open>i + 2\<close> and the exception) is appended to the
  errors, and the assets stay as the earlier rows left them. Every row of the sheet,
  before and after that one, is run on the store that the rows before it left: a row
  that returns has its asset in the store and counts as a success, a row that raises
  counts as an error with its message and leaves the assets as they were. The assets in
  the store at some point of the import are there at every later point, in their place
  and with their key and tag. The messages shown at the end are the success count, the
  error count and the first five errors, so at most five error messages are added.
\<close>

theorem bulk_import_row_failure:
  assumes "i < length rs"
    and "import_row u cols (rs ! i) (store (import_upto u cols rs s i)) = (Some x, s')"
    and "distinct (map asset_pk (assets s))"
  shows "import_upto u cols rs s (Suc i)
           = (import_upto u cols rs s i)
               \<lparr>store := s',
                error_count := error_count (import_upto u cols rs s i) + 1,
                errors := errors (import_upto u cols rs s i) @ [(i + 2, x)]\<rparr>
         \<and> assets s' = assets (store (import_upto u cols rs s i))
         \<and> (\<forall>j < length rs.
               store (import_upto u cols rs s (Suc j))
                 = snd (import_row u cols (rs ! j) (store (import_upto u cols rs s j))))
         \<and> (\<forall>j < length rs.
               fst (import_row u cols (rs ! j) (store (import_upto u cols rs s j))) = None \<longrightarrow>
                 success_count (import_upto u cols rs s (Suc j))
                   = success_count (import_upto u cols rs s j) + 1
                 \<and> error_count (import_upto u cols rs s (Suc j))
                   = error_count (import_upto u cols rs s j)
                 \<and> errors (import_upto u cols rs s (Suc j)) = errors (import_upto u cols rs s j)
                 \<and> (\<exists>a tag. row_tag (rs ! j) = Some tag \<and> asset_tag a = tag
                       \<and> a \<in> set (assets (store (import_upto u cols rs s (Suc j))))))
         \<and> (\<forall>j < length rs. \<forall>y.
               fst (import_row u cols (rs ! j) (store (import_upto u cols rs s j))) = Some y \<longrightarrow>
                 success_count (import_upto u cols rs s (Suc j))
                   = success_count (import_upto u cols rs s j)
                 \<and> error_count (import_upto u cols rs s (Suc j))
                   = error_count (import_upto u cols rs s j) + 1
                 \<and> errors (import_upto u cols rs s (Suc j))
                   = errors (import_upto u cols rs s j) @ [(j + 2, y)]
                 \<and> assets (store (import_upto u cols rs s (Suc j)))
                   = assets (store (import_upto u cols rs s j)))
         \<and> (\<forall>j \<le> length rs.
               success_count (import_upto u cols rs s j) + error_count (import_upto u cols rs s j)
                 = j)
         \<and> (\<forall>j k. j \<le> k \<and> k \<le> length rs \<longrightarrow>
               prefix (asset_keys (store (import_upto u cols rs s j)))
                      (asset_keys (store (import_upto u cols rs s k))))
         \<and> (\<forall>j k. j \<le> k \<and> k \<le> length rs \<longrightarrow>
               set (map asset_tag (assets (store (import_upto u cols rs s j))))
                 \<subseteq> set (map asset_tag (assets (store (import_upto u cols rs s k)))))
         \<and> (i + 2, x) \<in> set (errors (import_upto u cols rs s (length rs)))
         \<and> length (errors (import_upto u cols rs s (length rs)))
             = error_count (import_upto u cols rs s (length rs))
         \<and> messages (import_messages (import_upto u cols rs s (length rs)))
             = messages s
               @ (if 0 < success_count (import_upto u cols rs s (length rs))
                  then [(Success,
                         SuccessfullyImported (success_count (import_upto u cols rs s (length rs))))]
                  else [])
               @ (Warning, RowsHadErrors (error_count (import_upto u cols rs s (length rs))))
                 # map (\<lambda>(n, y). (Error, RowError n y))
                     (take 5 (errors (import_upto u cols rs s (length rs))))
         \<and> length (filter (\<lambda>m. fst m = Error)
                      (messages (import_messages (import_upto u cols rs s (length rs)))))
             \<le> length (filter (\<lambda>m. fst m = Error) (messages s)) + 5
         \<and> (user request = Some u \<and> request_method request = POST
              \<and> FILES_file request = Some upl
              \<and> endswith (file_name upl) [''.xlsx'', ''.xls'']
              \<and> read_excel upl = Inr \<lparr>columns = cols, rows = rs\<rparr>
              \<and> ''asset_tag'' \<in> set cols \<and> ''name'' \<in> set cols
            \<longrightarrow> bulk_import request s
                  = (Redirect ''assets:asset_list'' None,
                     import_messages (import_upto u cols rs s (length rs))))"
proof -
  let ?fin = "import_upto u cols rs s (length rs)"
  have step: "import_upto u cols rs s (Suc i)
           = (import_upto u cols rs s i)
               \<lparr>store := s',
                error_count := error_count (import_upto u cols rs s i) + 1,
                errors := errors (import_upto u cols rs s i) @ [(i + 2, x)]\<rparr>"
    using assms(1,2) by (simp add: import_upto_Suc import_step_def)
  have same: "assets s' = assets (store (import_upto u cols rs s i))"
    using import_row_failed [OF assms(2)] by simp
  have run: "\<forall>j < length rs.
               store (import_upto u cols rs s (Suc j))
                 = snd (import_row u cols (rs ! j) (store (import_upto u cols rs s j)))"
    by (simp add: import_upto_Suc store_import_step)
  have ok: "\<forall>j < length rs.
               fst (import_row u cols (rs ! j) (store (import_upto u cols rs s j))) = None \<longrightarrow>
                 success_count (import_upto u cols rs s (Suc j))
                   = success_count (import_upto u cols rs s j) + 1
                 \<and> error_count (import_upto u cols rs s (Suc j))
                   = error_count (import_upto u cols rs s j)
                 \<and> errors (import_upto u cols rs s (Suc j)) = errors (import_upto u cols rs s j)
                 \<and> (\<exists>a tag. row_tag (rs ! j) = Some tag \<and> asset_tag a = tag
                       \<and> a \<in> set (assets (store (import_upto u cols rs s (Suc j)))))"
  proof (intro allI impI)
    fix j
    assume j: "j < length rs"
      and none: "fst (import_row u cols (rs ! j) (store (import_upto u cols rs s j))) = None"
    have "\<exists>a tag. row_tag (rs ! j) = Some tag \<and> asset_tag a = tag
            \<and> a \<in> set (assets (snd (import_row u cols (rs ! j)
                                        (store (import_upto u cols rs s j)))))"
      using import_row_imported [OF none] by blast
    then show "success_count (import_upto u cols rs s (Suc j))
                   = success_count (import_upto u cols rs s j) + 1
                 \<and> error_count (import_upto u cols rs s (Suc j))
                   = error_count (import_upto u cols rs s j)
                 \<and> errors (import_upto u cols rs s (Suc j)) = errors (import_upto u cols rs s j)
                 \<and> (\<exists>a tag. row_tag (rs ! j) = Some tag \<and> asset_tag a = tag
                       \<and> a \<in> set (assets (store (import_upto u cols rs s (Suc j)))))"
      using j none by (simp add: import_upto_Suc import_step_success)
  qed
  have bad: "\<forall>j < length rs. \<forall>y.
               fst (import_row u cols (rs ! j) (store (import_upto u cols rs s j))) = Some y \<longrightarrow>
                 success_count (import_upto u cols rs s (Suc j))
                   = success_count (import_upto u cols rs s j)
                 \<and> error_count (import_upto u cols rs s (Suc j))
                   = error_count (import_upto u cols rs s j) + 1
                 \<and> errors (import_upto u cols rs s (Suc j))
                   = errors (import_upto u cols rs s j) @ [(j + 2, y)]
                 \<and> assets (store (import_upto u cols rs s (Suc j)))
                   = assets (store (import_upto u cols rs s j))"
  proof (intro allI impI)
    fix j y
    assume j: "j < length rs"
      and some: "fst (import_row u cols (rs ! j) (store (import_upto u cols rs s j))) = Some y"
    have "assets (snd (import_row u cols (rs ! j) (store (import_upto u cols rs s j))))
            = assets (store (import_upto u cols rs s j))"
      using import_row_failed
              [of u cols "rs ! j" "store (import_upto u cols rs s j)" y
                  "snd (import_row u cols (rs ! j) (store (import_upto u cols rs s j)))"]
            some
      by (simp add: prod_eq_iff)
    then show "success_count (import_upto u cols rs s (Suc j))
                   = success_count (import_upto u cols rs s j)
                 \<and> error_count (import_upto u cols rs s (Suc j))
                   = error_count (import_upto u cols rs s j) + 1
                 \<and> errors (import_upto u cols rs s (Suc j))
                   = errors (import_upto u cols rs s j) @ [(j + 2, y)]
                 \<and> assets (store (import_upto u cols rs s (Suc j)))
                   = assets (store (import_upto u cols rs s j))"
      using j some by (simp add: import_upto_Suc import_step_error)
  qed
  have counts: "\<forall>j \<le> length rs.
               success_count (import_upto u cols rs s j) + error_count (import_upto u cols rs s j)
                 = j"
    by (simp add: import_upto_counts)
  have keys: "\<forall>j k. j \<le> k \<and> k \<le> length rs \<longrightarrow>
               prefix (asset_keys (store (import_upto u cols rs s j)))
                      (asset_keys (store (import_upto u cols rs s k)))"
    using import_upto_keys_mono [OF assms(3)] by blast
  have tags: "\<forall>j k. j \<le> k \<and> k \<le> length rs \<longrightarrow>
               set (map asset_tag (assets (store (import_upto u cols rs s j))))
                 \<subseteq> set (map asset_tag (assets (store (import_upto u cols rs s k))))"
    using import_upto_tags_mono [OF assms(3)] by blast
  have "(i + 2, x) \<in> set (errors (import_upto u cols rs s (Suc i)))"
    by (simp add: step)
  then have recorded: "(i + 2, x) \<in> set (errors ?fin)"
    using import_upto_errors_mono [where j = "Suc i" and k = "length rs" and rs = rs] assms(1)
    by auto
  have len: "length (errors ?fin) = error_count ?fin"
    by (simp add: import_upto_errors_length)
  then have "0 < error_count ?fin"
    using recorded by (cases "errors ?fin") auto
  then have msgs: "messages (import_messages ?fin)
             = messages s
               @ (if 0 < success_count ?fin
                  then [(Success, SuccessfullyImported (success_count ?fin))]
                  else [])
               @ (Warning, RowsHadErrors (error_count ?fin))
                 # map (\<lambda>(n, y). (Error, RowError n y)) (take 5 (errors ?fin))"
    by (simp add: import_messages_messages import_upto_messages)
  have capped: "length (filter (\<lambda>m. fst m = Error) (messages (import_messages ?fin)))
             \<le> length (filter (\<lambda>m. fst m = Error) (messages s)) + 5"
    unfolding msgs by (simp add: filter_row_errors)
  have view: "user request = Some u \<and> request_method request = POST
              \<and> FILES_file request = Some upl
              \<and> endswith (file_name upl) [''.xlsx'', ''.xls'']
              \<and> read_excel upl = Inr \<lparr>columns = cols, rows = rs\<rparr>
              \<and> ''asset_tag'' \<in> set cols \<and> ''name'' \<in> set cols
            \<longrightarrow> bulk_import request s
                  = (Redirect ''assets:asset_list'' None,
                     import_messages (import_upto u cols rs s (length rs)))"
    using bulk_import_upload [of request u upl "\<lparr>columns = cols, rows = rs\<rparr>" s] by simp
  show ?thesis
    using step same run ok bad counts keys tags recorded len msgs capped view
    by (intro conjI)
qed

lemma ex_row_fails:
  "import_row ''admin'' ex_cols (ex_rows ! 1)
     (store (import_upto ''admin'' ex_cols ex_rows ex_state 1))
   = (Some (ValueError ''twelve''), store (import_upto ''admin'' ex_cols ex_rows ex_state 1))"
  by code_simp

lemma ex_row_returns:
  "fst (import_row ''admin'' ex_cols (ex_rows ! 2)
          (store (import_upto ''admin'' ex_cols ex_rows ex_state 2))) = None"
  "row_tag (ex_rows ! 2) = Some ''AST102''"
  by code_simp+

lemma ex_distinct: "distinct (map asset_pk (assets ex_state))"
  by (simp add: ex_state_def)

lemma ex_upload_simps:
  "user ex_upload = Some ''admin''" "request_method ex_upload = POST"
  "FILES_file ex_upload = Some ex_file" "read_excel ex_file = Inr \<lparr>columns = ex_cols, rows = ex_rows\<rparr>"
  "endswith (file_name ex_file) [''.xlsx'', ''.xls'']"
  "''asset_tag'' \<in> set ex_cols" "''name'' \<in> set ex_cols"
  by (simp_all add: ex_upload_def ex_file_def ex_cols_def endswith_def)

lemma ex_import_result:
  "asset_keys (snd (bulk_import ex_upload ex_state))
     = [(1, ''AST001''), (2, ''AST100''), (3, ''AST102'')]"
  "messages (snd (bulk_import ex_upload ex_state))
     = [(Success, SuccessfullyImported 2), (Warning, RowsHadErrors 1),
        (Error, RowError 3 (ValueError ''twelve''))]"
  "error_count (import_upto ''admin'' ex_cols ex_bad_rows ex_state 6) = 6"
  "length (filter (\<lambda>m. fst m = Error)
             (messages (import_messages (import_upto ''admin'' ex_cols ex_bad_rows ex_state 6))))
     = 5"
  by code_simp+

theorem bulk_import_row_failure_witness:
  "import_upto ''admin'' ex_cols ex_rows ex_state 2
     = (import_upto ''admin'' ex_cols ex_rows ex_state 1)
         \<lparr>store := store (import_upto ''admin'' ex_cols ex_rows ex_state 1),
          error_count := error_count (import_upto ''admin'' ex_cols ex_rows ex_state 1) + 1,
          errors := errors (import_upto ''admin'' ex_cols ex_rows ex_state 1)
                      @ [(3, ValueError ''twelve'')]\<rparr>
   \<and> (3, ValueError ''twelve'') \<in> set (errors (import_upto ''admin'' ex_cols ex_rows ex_state 3))
   \<and> success_count (import_upto ''admin'' ex_cols ex_rows ex_state 3)
       + error_count (import_upto ''admin'' ex_cols ex_rows ex_state 3) = 3
   \<and> success_count (import_upto ''admin'' ex_cols ex_rows ex_state 3)
       = success_count (import_upto ''admin'' ex_cols ex_rows ex_state 2) + 1
   \<and> ''AST102'' \<in> set (map asset_tag (assets (store (import_upto ''admin'' ex_cols ex_rows ex_state 3))))
   \<and> bulk_import ex_upload ex_state
       = (Redirect ''assets:asset_list'' None,
          import_messages (import_upto ''admin'' ex_cols ex_rows ex_state 3))
   \<and> asset_keys (snd (bulk_import ex_upload ex_state))
       = [(1, ''AST001''), (2, ''AST100''), (3, ''AST102'')]
   \<and> messages (snd (bulk_import ex_upload ex_state))
       = [(Success, SuccessfullyImported 2), (Warning, RowsHadErrors 1),
          (Error, RowError 3 (ValueError ''twelve''))]
   \<and> error_count (import_upto ''admin'' ex_cols ex_bad_rows ex_state 6) = 6
   \<and> length (filter (\<lambda>m. fst m = Error)
                (messages (import_messages (import_upto ''admin'' ex_cols ex_bad_rows ex_state 6))))
       = 5"
proof -
  have len: "length ex_rows = 3" by (simp add: ex_rows_def)
  then have "1 < length ex_rows" by simp
  note th = bulk_import_row_failure
              [OF this ex_row_fails ex_distinct, where request = ex_upload and upl = ex_file]
  have c1: "import_upto ''admin'' ex_cols ex_rows ex_state (Suc 1)
     = (import_upto ''admin'' ex_cols ex_rows ex_state 1)
         \<lparr>store := store (import_upto ''admin'' ex_cols ex_rows ex_state 1),
          error_count := error_count (import_upto ''admin'' ex_cols ex_rows ex_state 1) + 1,
          errors := errors (import_upto ''admin'' ex_cols ex_rows ex_state 1)
                      @ [(1 + 2, ValueError ''twelve'')]\<rparr>"
    using th by blast
  have c3: "\<forall>j \<le> length ex_rows.
              success_count (import_upto ''admin'' ex_cols ex_rows ex_state j)
                + error_count (import_upto ''admin'' ex_cols ex_rows ex_state j) = j"
    using th by blast
  have c4: "\<forall>j < length ex_rows.
               fst (import_row ''admin'' ex_cols (ex_rows ! j)
                      (store (import_upto ''admin'' ex_cols ex_rows ex_state j))) = None \<longrightarrow>
                 success_count (import_upto ''admin'' ex_cols ex_rows ex_state (Suc j))
                   = success_count (import_upto ''admin'' ex_cols ex_rows ex_state j) + 1
                 \<and> error_count (import_upto ''admin'' ex_cols ex_rows ex_state (Suc j))
                   = error_count (import_upto ''admin'' ex_cols ex_rows ex_state j)
                 \<and> errors (import_upto ''admin'' ex_cols ex_rows ex_state (Suc j))
                   = errors (import_upto ''admin'' ex_cols ex_rows ex_state j)
                 \<and> (\<exists>a tag. row_tag (ex_rows ! j) = Some tag \<and> asset_tag a = tag
                       \<and> a \<in> set (assets (store (import_upto ''admin'' ex_cols ex_rows ex_state
                                                     (Suc j)))))"
    using th by blast
  have c5: "(1 + 2, ValueError ''twelve'')
              \<in> set (errors (import_upto ''admin'' ex_cols ex_rows ex_state (length ex_rows)))"
    using th by blast
  have c7: "bulk_import ex_upload ex_state
       = (Redirect ''assets:asset_list'' None,
          import_messages (import_upto ''admin'' ex_cols ex_rows ex_state (length ex_rows)))"
    using th ex_upload_simps by blast
  have e1: "Suc 1 = (2::nat)" and e2: "(1::nat) + 2 = 3" and e3: "Suc 2 = (3::nat)" by simp_all
  have c3': "success_count (import_upto ''admin'' ex_cols ex_rows ex_state 3)
               + error_count (import_upto ''admin'' ex_cols ex_rows ex_state 3) = 3"
    using c3 len by simp
  have "(2::nat) < length ex_rows" using len by simp
  from c4 [rule_format, OF this ex_row_returns(1)]
  have c4': "success_count (import_upto ''admin'' ex_cols ex_rows ex_state 3)
               = success_count (import_upto ''admin'' ex_cols ex_rows ex_state 2) + 1"
    and c4'': "''AST102'' \<in> set (map asset_tag
                                    (assets (store (import_upto ''admin'' ex_cols ex_rows ex_state 3))))"
    unfolding e3 using ex_row_returns(2) by force+
  show ?thesis
    using c1 c3' c4' c4'' c5 c7 ex_import_result unfolding e1 e2 len by (intro conjI)
qed

section \<open>The audit trail\<close>

subsection \<open>The history table under each operation\<close>

lemma assign_asset_history:
  "history (snd (assign_asset e r k s)) = history s
   \<or> (\<exists>h. history (snd (assign_asset e r k s)) = history s @ [h])"
  by (auto simp: assign_asset_def login_required_def Let_def
      split: option.splits sum.splits if_splits)

lemma unassign_asset_history:
  "history (snd (unassign_asset e r k s)) = history s
   \<or> (\<exists>h. history (snd (unassign_asset e r k s)) = history s @ [h])"
  by (auto simp: unassign_asset_def login_required_def Let_def
      split: option.splits sum.splits if_splits)


lemma import_row_history:
  "history (snd (import_row u cols r s)) = history s
   \<or> (\<exists>h. history (snd (import_row u cols r s)) = history s @ [h])"
  using import_row_outcome [of u cols r s]
proof (elim disjE exE conjE)
  fix x s'
  assume "import_row u cols r s = (Some x, s')" and "history s' = history s"
  then show ?thesis by simp
next
  fix nm c tbl1 q1 l v cost a created s3 s4
  assume uc: "update_or_create (the (row_tag r)) (import_defaults u r nm c l v cost) s3
                = Inr (a, created, s4)"
    and s3: "history s3 = history s"
    and res: "import_row u cols r s
                = (None, if created then create_history (imported_row u a) s4 else s4)"
  have "history s4 = history s" using update_or_create_frame [OF uc] s3 by simp
  then show ?thesis by (simp add: res)
qed

lemma import_step_history:
  "prefix (history (store acc)) (history (store (import_step u cols i r acc)))"
  using import_row_history [of u cols r "store acc"]
  by (auto simp: store_import_step)

lemma import_rows_history:
  "prefix (history (store acc)) (history (store (import_rows u cols i rs acc)))"
proof (induction rs arbitrary: i acc)
  case Nil
  then show ?case by simp
next
  case (Cons r rs)
  have "prefix (history (store acc)) (history (store (import_step u cols i r acc)))"
    by (rule import_step_history)
  also have "prefix \<dots> (history (store (import_rows u cols (Suc i) rs (import_step u cols i r acc))))"
    by (rule Cons.IH)
  finally show ?case by simp
qed

lemma fold_row_errors_history:
  "history (fold (\<lambda>(i, x). add_message Error (RowError i x)) es s) = history s"
  by (induction es arbitrary: s) (auto simp: case_prod_beta)

lemma import_messages_history: "history (import_messages acc) = history (store acc)"
  by (simp add: import_messages_def Let_def fold_row_errors_history)

lemma bulk_import_history: "prefix (history s) (history (snd (bulk_import r s)))"
proof -
  have "prefix (history s)
          (history (store (import_rows u cols 0 rs
                      \<lparr>store = s, success_count = 0, error_count = 0, errors = []\<rparr>)))"
    for u cols rs
    using import_rows_history
            [of "\<lparr>store = s, success_count = 0, error_count = 0, errors = []\<rparr>" u cols 0 rs]
    by simp
  then show ?thesis
    by (auto simp: bulk_import_def login_required_def import_messages_history
        split: option.splits sum.splits list.splits)
qed

lemma save_model_history:
  "history (save_model u obj change s) =
     (if change then history s
      else history s @ [created_row u
                          (obj\<lparr>created_by := Some u,
                              asset_pk := next_pk (asset_seq s) (map asset_pk (assets s))\<rparr>)])"
  by (simp add: save_model_def Let_def)


lemma history_admin_refuses:
  "admin_history_edit AssetHistoryAdmin (AddRow h) s = s"
  "admin_history_edit AssetHistoryAdmin (ChangeRow i h) s = s"
  "admin_history_edit AssetHistoryInline ed s = s"
  by (simp_all add: admin_history_edit_def AssetHistoryAdmin_def AssetHistoryInline_def
      ModelAdmin_def inline_fields_def inline_readonly_fields_def split: history_edit.splits)

lemma perform_history:
  assumes "\<not> deletes op"
  shows "prefix (history s) (history (perform op s))"
proof (cases op)
  case (Assign e r k)
  then show ?thesis using assign_asset_history [of e r k s] by (auto simp: perform_def)
next
  case (Unassign e r k)
  then show ?thesis using unassign_asset_history [of e r k s] by (auto simp: perform_def)
next
  case (BulkImport r)
  then show ?thesis by (simp add: perform_def bulk_import_history)
next
  case (AdminSaveAsset u obj change)
  then show ?thesis by (simp add: perform_def save_model_history)
next
  case (AdminDeleteAsset k)
  then show ?thesis using assms by (simp add: deletes_def)
next
  case (AdminHistory ed)
  then show ?thesis
    using assms by (cases ed) (simp_all add: deletes_def perform_def history_admin_refuses)
next
  case (InlineHistory ed)
  then show ?thesis by (simp add: perform_def history_admin_refuses)
qed

lemma fold_perform_history:
  "\<forall>op \<in> set ops. \<not> deletes op \<Longrightarrow> prefix (history s) (history (fold perform ops s))"
proof (induction ops arbitrary: s)
  case Nil
  then show ?case by simp
next
  case (Cons op ops)
  have "prefix (history s) (history (perform op s))"
    using Cons.prems by (simp add: perform_history)
  also have "prefix \<dots> (history (fold perform ops (perform op s)))"
    using Cons by simp
  finally show ?case by simp
qed

text \<open>
  C4, as stated: no operation would delete a history row. Deleting the asset \<open>AST001\<close>
  in the admin removes the row that its assignment wrote.
\<close>

theorem history_write_once_counterexample:
  "history ex_logged_state = [assigned_row ''admin'' ex_assigned_asset None ex_jane]
   \<and> history (perform (AdminDeleteAsset 1) ex_logged_state) = []"
  by (simp add: ex_logged_state_def ex_assigned_state_def perform_def AssetAdmin_def
      ModelAdmin_def delete_asset_def assigned_row_def ex_assigned_asset_def ex_asset_def)

text \<open>
  C4, amended. No view and no add or change path of the admin updates or deletes a
  history row: in every sequence of operations without a deletion (assign, unassign,
  bulk import, saving an asset in the admin, and whatever is asked of the history admin
  and of the history inline), the rows that exist stay as they are, new rows coming
  after them. Deleting an asset deletes the history rows of that asset and no other.
\<close>

theorem history_append_only:
  "((\<forall>op \<in> set ops. \<not> deletes op) \<longrightarrow> prefix (history s) (history (fold perform ops s)))
   \<and> history (perform (AdminDeleteAsset k) s) = filter (\<lambda>h. asset h \<noteq> k) (history s)"
  by (simp add: fold_perform_history perform_def AssetAdmin_def ModelAdmin_def delete_asset_def)

theorem history_append_only_witness:
  "prefix (history ex_logged_state) (history (fold perform ex_ops ex_logged_state))"
  using history_append_only [of ex_ops ex_logged_state]
  by (simp add: ex_ops_def deletes_def)











end
